theory Spec2Isabelle
  imports Complex_Main "HOL-Library.Word"
begin

section \<open>JavaScript strings\<close>

text \<open>
  A JavaScript string is a sequence of 16-bit code units; a chunk of a response body is a
  sequence of bytes. String literals of the source are written \<open>js ''...''\<close>.
\<close>

type_synonym byte = "8 word"
type_synonym jschar = "16 word"
type_synonym jsstring = "jschar list"

definition js :: "string \<Rightarrow> jsstring" where
  "js s = map (\<lambda>c. of_nat (of_char c)) s"

text \<open>\<open>s.startsWith(p)\<close>.\<close>

fun startsWith :: "jsstring \<Rightarrow> jsstring \<Rightarrow> bool" where
  "startsWith s [] = True"
| "startsWith [] (p # ps) = False"
| "startsWith (x # xs) (p # ps) = (x = p \<and> startsWith xs ps)"

text \<open>\<open>s.includes(t)\<close>: \<open>t\<close> occurs in \<open>s\<close> as a contiguous run.\<close>

fun includes_str :: "jsstring \<Rightarrow> jsstring \<Rightarrow> bool" where
  "includes_str [] t = (t = [])"
| "includes_str (x # xs) t = (startsWith (x # xs) t \<or> includes_str xs t)"

text \<open>\<open>s.indexOf(c)\<close> for a one-unit string \<open>c\<close>: the first position, or \<open>-1\<close>.\<close>

fun indexOf :: "jsstring \<Rightarrow> jschar \<Rightarrow> int" where
  "indexOf [] c = - 1"
| "indexOf (x # xs) c =
     (if x = c then 0 else (let i = indexOf xs c in if i = - 1 then - 1 else i + 1))"

text \<open>
  \<open>s.slice(start, fin)\<close> and \<open>s.slice(start)\<close>: a negative index counts from the end,
  and every index is clamped to the string.
\<close>

definition clampIndex :: "nat \<Rightarrow> int \<Rightarrow> nat" where
  "clampIndex len i = (if i < 0 then nat (max (int len + i) 0) else min (nat i) len)"

definition slice :: "jsstring \<Rightarrow> int \<Rightarrow> int \<Rightarrow> jsstring" where
  "slice s start fin =
     (let from = clampIndex (length s) start; to = clampIndex (length s) fin
      in take (to - from) (drop from s))"

definition sliceFrom :: "jsstring \<Rightarrow> int \<Rightarrow> jsstring" where
  "sliceFrom s start = drop (clampIndex (length s) start) s"

text \<open>
  \<open>s.trim()\<close> removes the WhiteSpace and LineTerminator code units of ECMAScript from
  both ends.
\<close>

definition isWhiteSpace :: "jschar \<Rightarrow> bool" where
  "isWhiteSpace c =
     (c = 0x09 \<or> c = 0x0A \<or> c = 0x0B \<or> c = 0x0C \<or> c = 0x0D \<or> c = 0x20 \<or> c = 0xA0
      \<or> c = 0x1680 \<or> (0x2000 \<le> c \<and> c \<le> 0x200A) \<or> c = 0x2028 \<or> c = 0x2029
      \<or> c = 0x202F \<or> c = 0x205F \<or> c = 0x3000 \<or> c = 0xFEFF)"

definition trim :: "jsstring \<Rightarrow> jsstring" where
  "trim s = rev (dropWhile isWhiteSpace (rev (dropWhile isWhiteSpace s)))"

section \<open>JSON values\<close>

text \<open>
  What \<open>JSON.parse\<close> returns. An object is its list of own properties in the order of
  \<open>Object.keys\<close>; a property is read with \<open>getProp\<close>, which is \<open>None\<close> where
  JavaScript gives \<open>undefined\<close>.
\<close>

datatype json =
    JNull
  | JBool bool
  | JNum rat
  | JStr jsstring
  | JArr "json list"
  | JObj "(jsstring \<times> json) list"

fun getProp :: "json \<Rightarrow> jsstring \<Rightarrow> json option" where
  "getProp (JObj kvs) k = map_of kvs k"
| "getProp _ k = None"

text \<open>Truthiness, as \<open>&&\<close>, \<open>||\<close> and \<open>!\<close> see a value.\<close>

fun truthy :: "json \<Rightarrow> bool" where
  "truthy JNull = False"
| "truthy (JBool b) = b"
| "truthy (JNum n) = (n \<noteq> 0)"
| "truthy (JStr s) = (s \<noteq> [])"
| "truthy (JArr xs) = True"
| "truthy (JObj kvs) = True"

section \<open>The browser's primitives\<close>

text \<open>
  The source calls \<open>JSON.parse\<close>, \<open>new URL(url).hostname\<close>, \<open>toLowerCase\<close> and
  \<open>toUpperCase\<close>. They belong to the browser, not to the repository, so the model takes
  them as parameters: every theorem holds for whatever functions the browser provides.
  \<open>None\<close> is a thrown exception (\<open>SyntaxError\<close> for \<open>JSON.parse\<close>, \<open>TypeError\<close>
  for \<open>new URL\<close>).
\<close>

record platform =
  JSON_parse :: "jsstring \<Rightarrow> json option"
  URL_hostname :: "jsstring \<Rightarrow> jsstring option"
  toLowerCase :: "jsstring \<Rightarrow> jsstring"
  toUpperCase :: "jsstring \<Rightarrow> jsstring"

section \<open>URL classifier\<close>

text \<open>
  \<open>detectServiceFromUrl\<close> of the popup. \<open>None\<close> is the \<open>null\<close> it returns; the
  \<open>try\<close>/\<open>catch\<close> turns a failing \<open>new URL\<close> into the final \<open>return null\<close>.
\<close>

definition detectServiceFromUrl_popup :: "platform \<Rightarrow> jsstring \<Rightarrow> jsstring option" where
  "detectServiceFromUrl_popup pf url =
     (if url = [] then None
      else case URL_hostname pf url of
        None \<Rightarrow> None
      | Some hostname \<Rightarrow>
          (let host = toLowerCase pf hostname in
           if host = js ''chatgpt.com'' \<or> host = js ''chat.openai.com'' then Some (js ''chatgpt'')
           else if host = js ''claude.ai'' then Some (js ''claude'')
           else if host = js ''gemini.google.com'' then Some (js ''gemini'')
           else if host = js ''perplexity.ai'' then Some (js ''perplexity'')
           else None))"

text \<open>\<open>detectServiceFromUrl\<close> of the content script, a separate copy in the source.\<close>

definition detectServiceFromUrl_content :: "platform \<Rightarrow> jsstring \<Rightarrow> jsstring option" where
  "detectServiceFromUrl_content pf url =
     (if url = [] then None
      else case URL_hostname pf url of
        None \<Rightarrow> None
      | Some hostname \<Rightarrow>
          (let host = toLowerCase pf hostname in
           if host = js ''chatgpt.com'' \<or> host = js ''chat.openai.com'' then Some (js ''chatgpt'')
           else if host = js ''claude.ai'' then Some (js ''claude'')
           else if host = js ''gemini.google.com'' then Some (js ''gemini'')
           else if host = js ''perplexity.ai'' then Some (js ''perplexity'')
           else None))"

text \<open>
  Both call sites read the result as \<open>service || 'unknown'\<close>: \<open>null\<close> becomes the
  identifier \<open>unknown\<close>.
\<close>

definition orUnknown :: "jsstring option \<Rightarrow> jsstring" where
  "orUnknown service =
     (case service of None \<Rightarrow> js ''unknown'' | Some s \<Rightarrow> if s = [] then js ''unknown'' else s)"

text \<open>The fixed table of the specification: hostname to service identifier.\<close>

definition serviceTable :: "(jsstring \<times> jsstring) list" where
  "serviceTable =
     [(js ''chatgpt.com'', js ''chatgpt''),
      (js ''chat.openai.com'', js ''chatgpt''),
      (js ''claude.ai'', js ''claude''),
      (js ''gemini.google.com'', js ''gemini''),
      (js ''perplexity.ai'', js ''perplexity'')]"

section \<open>Payload miner\<close>

text \<open>
  A citation as the miner pushes it: \<open>{ url, title, attribution }\<close>. The source checks
  that \<open>url\<close> is a string; \<open>title\<close> and \<open>attribution\<close> are whatever the payload
  holds there, or the empty string when that is missing or falsy.
\<close>

record citation =
  url :: jsstring
  title :: json
  attribution :: json

text \<open>\<open>v || ''\<close> for a property that may be \<open>undefined\<close>.\<close>

definition orEmpty :: "json option \<Rightarrow> json" where
  "orEmpty v = (case v of None \<Rightarrow> JStr [] | Some x \<Rightarrow> if truthy x then x else JStr [])"

text \<open>
  The body of each \<open>for ... of\<close> statement:
  \<open>if (s && typeof s.url === 'string') found.push({...})\<close>.
\<close>

definition pushSource :: "json \<Rightarrow> citation list \<Rightarrow> citation list" where
  "pushSource s found =
     (if truthy s then
        (case getProp s (js ''url'') of
           Some (JStr u) \<Rightarrow>
             found @ [\<lparr>url = u, title = orEmpty (getProp s (js ''title'')),
                       attribution = orEmpty (getProp s (js ''attribution''))\<rparr>]
         | _ \<Rightarrow> found)
      else found)"

fun pushSources :: "json list \<Rightarrow> citation list \<Rightarrow> citation list" where
  "pushSources [] found = found"
| "pushSources (s # ss) found = pushSources ss (pushSource s found)"

text \<open>\<open>Array.isArray(v)\<close>, with the elements when it holds.\<close>

fun asArray :: "json option \<Rightarrow> json list option" where
  "asArray (Some (JArr xs)) = Some xs"
| "asArray _ = None"

text \<open>
  \<open>extractSourcesFromPayload(obj, found)\<close>; the array \<open>found\<close> that the source mutates is
  passed in and returned. \<open>extractEach\<close> is the loop over an array's elements,
  \<open>extractKeys\<close> the loop over \<open>Object.keys(obj)\<close>.
\<close>

fun extractSourcesFromPayload :: "json \<Rightarrow> citation list \<Rightarrow> citation list"
  and extractEach :: "json list \<Rightarrow> citation list \<Rightarrow> citation list"
  and extractKeys :: "(jsstring \<times> json) list \<Rightarrow> citation list \<Rightarrow> citation list"
where
  "extractSourcesFromPayload (JArr xs) found = extractEach xs found"
| "extractSourcesFromPayload (JObj kvs) found =
     (if getProp (JObj kvs) (js ''type'') = Some (JStr (js ''sources_footnote''))
         \<and> asArray (getProp (JObj kvs) (js ''sources'')) \<noteq> None
      then pushSources (the (asArray (getProp (JObj kvs) (js ''sources'')))) found
      else extractKeys kvs
             (case asArray (getProp (JObj kvs) (js ''items'')) of
                Some items \<Rightarrow> pushSources items found
              | None \<Rightarrow> found))"
| "extractSourcesFromPayload JNull found = found"
| "extractSourcesFromPayload (JBool b) found = found"
| "extractSourcesFromPayload (JNum n) found = found"
| "extractSourcesFromPayload (JStr s) found = found"
| "extractEach [] found = found"
| "extractEach (x # xs) found = extractEach xs (extractSourcesFromPayload x found)"
| "extractKeys [] found = found"
| "extractKeys ((k, v) # kvs) found = extractKeys kvs (extractSourcesFromPayload v found)"

section \<open>Text decoder\<close>

text \<open>
  \<open>new TextDecoder()\<close> is the UTF-8 decoder of the Encoding standard, and
  \<open>decoder.decode(value, { stream: true })\<close> keeps its state from one chunk to the next:
  the bytes of an unfinished sequence wait for the next chunk. The state is the standard's:
  the code point under construction, the bytes seen and needed, the bounds for the next
  byte, and whether the byte order mark has been passed.
\<close>

record utf8_decoder =
  code_point :: nat
  bytes_seen :: nat
  bytes_needed :: nat
  lower_boundary :: nat
  upper_boundary :: nat
  bom_seen :: bool

definition newTextDecoder :: utf8_decoder where
  "newTextDecoder =
     \<lparr>code_point = 0, bytes_seen = 0, bytes_needed = 0,
      lower_boundary = 0x80, upper_boundary = 0xBF, bom_seen = False\<rparr>"

text \<open>A byte met when no sequence is open. A malformed byte gives U+FFFD.\<close>

definition utf8_lead :: "utf8_decoder \<Rightarrow> nat \<Rightarrow> nat list \<times> utf8_decoder" where
  "utf8_lead d b =
     (if b \<le> 0x7F then ([b], d)
      else if 0xC2 \<le> b \<and> b \<le> 0xDF then
        ([], d\<lparr>bytes_needed := 1, code_point := b mod 0x20\<rparr>)
      else if 0xE0 \<le> b \<and> b \<le> 0xEF then
        ([], d\<lparr>lower_boundary := (if b = 0xE0 then 0xA0 else lower_boundary d),
               upper_boundary := (if b = 0xED then 0x9F else upper_boundary d),
               bytes_needed := 2, code_point := b mod 0x10\<rparr>)
      else if 0xF0 \<le> b \<and> b \<le> 0xF4 then
        ([], d\<lparr>lower_boundary := (if b = 0xF0 then 0x90 else lower_boundary d),
               upper_boundary := (if b = 0xF4 then 0x8F else upper_boundary d),
               bytes_needed := 3, code_point := b mod 0x08\<rparr>)
      else ([0xFFFD], d))"

text \<open>
  One byte through the decoder: the code points it completes. A byte outside the bounds
  ends the open sequence with U+FFFD and is then read again as a first byte.
\<close>

definition utf8_handler :: "utf8_decoder \<Rightarrow> nat \<Rightarrow> nat list \<times> utf8_decoder" where
  "utf8_handler d b =
     (if bytes_needed d = 0 then utf8_lead d b
      else if b < lower_boundary d \<or> upper_boundary d < b then
        (let d0 = d\<lparr>code_point := 0, bytes_needed := 0, bytes_seen := 0,
                     lower_boundary := 0x80, upper_boundary := 0xBF\<rparr>;
             (out, d1) = utf8_lead d0 b
         in (0xFFFD # out, d1))
      else
        (let d1 = d\<lparr>lower_boundary := 0x80, upper_boundary := 0xBF,
                     code_point := code_point d * 0x40 + b mod 0x40,
                     bytes_seen := bytes_seen d + 1\<rparr>
         in if bytes_seen d1 \<noteq> bytes_needed d1 then ([], d1)
            else ([code_point d1], d1\<lparr>code_point := 0, bytes_needed := 0, bytes_seen := 0\<rparr>)))"

text \<open>A code point as UTF-16 code units.\<close>

definition utf16 :: "nat \<Rightarrow> jsstring" where
  "utf16 cp =
     (if cp < 0x10000 then [of_nat cp]
      else [of_nat (0xD800 + (cp - 0x10000) div 0x400),
            of_nat (0xDC00 + (cp - 0x10000) mod 0x400)])"

text \<open>Code points to text; the first one is dropped when it is the byte order mark.\<close>

fun serialize :: "utf8_decoder \<Rightarrow> nat list \<Rightarrow> jsstring \<times> utf8_decoder" where
  "serialize d [] = ([], d)"
| "serialize d (cp # cps) =
     (if \<not> bom_seen d \<and> cp = 0xFEFF then serialize (d\<lparr>bom_seen := True\<rparr>) cps
      else (let (t, d1) = serialize (d\<lparr>bom_seen := True\<rparr>) cps in (utf16 cp @ t, d1)))"

text \<open>\<open>decoder.decode(value, { stream: true })\<close>: the text, and the decoder afterwards.\<close>

fun decode :: "utf8_decoder \<Rightarrow> byte list \<Rightarrow> jsstring \<times> utf8_decoder" where
  "decode d [] = ([], d)"
| "decode d (b # bs) =
     (let (cps, d1) = utf8_handler d (unat b);
          (t, d2) = serialize d1 cps;
          (ts, d3) = decode d2 bs
      in (t @ ts, d3))"

section \<open>Event-stream decoder\<close>

text \<open>
  The variables of \<open>consumeStream\<close> that its inner functions share: \<open>buffer\<close> and
  \<open>collected\<close>. \<open>emitted\<close> is a history variable that the source does not have: every
  line that \<open>processBuffer\<close> cuts off the buffer, in order.
\<close>

record observation =
  buffer :: jsstring
  collected :: "citation list"
  emitted :: "jsstring list"

definition CITATIONS_EVENT :: jsstring where
  "CITATIONS_EVENT = js ''AICredibilityCitations''"

text \<open>\<open>processDataLine(line, collected)\<close>; the \<open>catch\<close> drops a line that does not parse.\<close>

definition processDataLine :: "platform \<Rightarrow> jsstring \<Rightarrow> citation list \<Rightarrow> citation list" where
  "processDataLine pf line found =
     (let trimmed = trim line in
      if trimmed = [] \<or> trimmed = js ''[DONE]'' then found
      else case JSON_parse pf trimmed of
             None \<Rightarrow> found
           | Some data \<Rightarrow> extractSourcesFromPayload data found)"

text \<open>What \<open>processBuffer\<close> does with one line it has cut off.\<close>

definition processLine :: "platform \<Rightarrow> jsstring \<Rightarrow> citation list \<Rightarrow> citation list" where
  "processLine pf line found =
     (if startsWith line (js ''data:'')
      then (let payload = trim (sliceFrom line 5) in processDataLine pf payload found)
      else found)"

text \<open>\<open>processBuffer()\<close>: the \<open>while\<close> loop runs as long as the buffer holds a newline.\<close>

function processBuffer :: "platform \<Rightarrow> observation \<Rightarrow> observation" where
  "processBuffer pf ob =
     (let idx = indexOf (buffer ob) 0x0A in
      if idx = - 1 then ob
      else
        (let line = slice (buffer ob) 0 idx
         in processBuffer pf
              (ob\<lparr>buffer := sliceFrom (buffer ob) (idx + 1),
                  collected := processLine pf line (collected ob),
                  emitted := emitted ob @ [line]\<rparr>)))"
  by pat_completeness auto
termination
proof (relation "measure (\<lambda>(pf, ob). length (buffer ob))")
  show "wf (measure (\<lambda>(pf, ob). length (buffer ob)))"
    by simp
next
  fix pf :: platform and ob :: observation and idx :: int and line :: jsstring
  assume idx: "idx = indexOf (buffer ob) 0x0A" and found: "idx \<noteq> - 1"
  have ge: "- 1 \<le> indexOf s c" for s c
    by (induction s) (auto simp: Let_def)
  from idx ge [of "buffer ob" "0x0A"] found have pos: "0 \<le> idx"
    by simp
  from idx found have nonempty: "buffer ob \<noteq> []"
    by (cases "buffer ob") simp_all
  from pos nonempty have "length (sliceFrom (buffer ob) (idx + 1)) < length (buffer ob)"
    by (simp add: sliceFrom_def clampIndex_def)
  then show "((pf, ob\<lparr>buffer := sliceFrom (buffer ob) (idx + 1),
                     collected := processLine pf line (collected ob),
                     emitted := emitted ob @ [line]\<rparr>), (pf, ob))
             \<in> measure (\<lambda>(pf, ob). length (buffer ob))"
    by simp
qed

text \<open>
  The filter of the \<open>done\<close> branch: a citation is kept when its \<open>url\<close> is not yet in
  \<open>seen\<close>, and its \<open>url\<close> is then added.
\<close>

fun uniqueFilter :: "jsstring set \<Rightarrow> citation list \<Rightarrow> citation list" where
  "uniqueFilter seen [] = []"
| "uniqueFilter seen (s # ss) =
     (if url s \<in> seen then uniqueFilter seen ss
      else s # uniqueFilter (insert (url s) seen) ss)"

text \<open>The argument of \<open>window.postMessage\<close>.\<close>

record citations_message =
  mtype :: jsstring
  sources :: "citation list"

text \<open>
  How a run of \<open>consumeStream\<close> ends: the observation when \<open>done\<close> was handled, and the
  message posted, if one was.
\<close>

record stream_outcome =
  at_end :: observation
  posted :: "citations_message option"

text \<open>The \<open>done\<close> branch of \<open>read\<close>.\<close>

definition streamDone :: "platform \<Rightarrow> observation \<Rightarrow> stream_outcome" where
  "streamDone pf ob =
     (let ob1 = processBuffer pf ob;
          unique = uniqueFilter {} (collected ob1)
      in \<lparr>at_end = ob1,
           posted = (if length unique > 0
                     then Some \<lparr>mtype = CITATIONS_EVENT, sources = unique\<rparr>
                     else None)\<rparr>)"

text \<open>
  A response body: the chunks its reader delivers, and whether it then closes or fails.
  A failing \<open>reader.read()\<close> rejects the promise of \<open>read\<close>; nothing is posted, which
  is \<open>None\<close>.
\<close>

datatype stream_end = Closed | Errored

record byte_stream =
  chunks :: "byte list list"
  ending :: stream_end

text \<open>
  \<open>read()\<close>: one call per chunk, \<open>value\<close> first, and a last call with \<open>done\<close> set and no
  \<open>value\<close>. Each call runs \<open>processBuffer\<close>; the last one runs it a second time.
\<close>

fun read :: "platform \<Rightarrow> utf8_decoder \<Rightarrow> observation \<Rightarrow> byte list list \<Rightarrow> stream_end
             \<Rightarrow> stream_outcome option" where
  "read pf decoder ob [] Errored = None"
| "read pf decoder ob [] Closed = Some (streamDone pf (processBuffer pf ob))"
| "read pf decoder ob (val # rest) e =
     (let (text, decoder1) = decode decoder val;
          ob1 = processBuffer pf (ob\<lparr>buffer := buffer ob @ text\<rparr>)
      in read pf decoder1 ob1 rest e)"

definition consumeStream :: "platform \<Rightarrow> byte_stream \<Rightarrow> utf8_decoder \<Rightarrow> stream_outcome option" where
  "consumeStream pf stream decoder =
     read pf decoder \<lparr>buffer = [], collected = [], emitted = []\<rparr> (chunks stream) (ending stream)"

section \<open>Citation sink\<close>

text \<open>
  The \<open>message\<close> event the content script's listener receives: whether
  \<open>event.source\<close> is the window, and \<open>event.data\<close> (\<open>None\<close> when it is falsy) with
  its \<open>type\<close> and, when \<open>Array.isArray\<close> holds of it, its \<open>sources\<close>.
\<close>

record event_data =
  data_type :: jsstring
  data_sources :: "citation list option"

record message_event =
  from_window :: bool
  data :: "event_data option"

text \<open>The listener: the state is \<open>lastCitations\<close>, initially \<open>[]\<close>.\<close>

definition onMessage :: "message_event \<Rightarrow> citation list \<Rightarrow> citation list" where
  "onMessage event lastCitations =
     (if \<not> from_window event \<or> data event = None then lastCitations
      else if data_type (the (data event)) = js ''AICredibilityCitations''
              \<and> data_sources (the (data event)) \<noteq> None
      then the (data_sources (the (data event)))
      else lastCitations)"

text \<open>\<open>window.postMessage(m, '*')\<close> from the page: the event the listener is called with.\<close>

definition postMessage :: "citations_message \<Rightarrow> message_event" where
  "postMessage m =
     \<lparr>from_window = True,
      data = Some \<lparr>data_type = mtype m, data_sources = Some (sources m)\<rparr>\<rparr>"

text \<open>\<open>lastCitations\<close> after a run of \<open>consumeStream\<close> has ended with outcome \<open>out\<close>.\<close>

definition deliver :: "stream_outcome option \<Rightarrow> citation list \<Rightarrow> citation list" where
  "deliver out lastCitations =
     (case out of
        None \<Rightarrow> lastCitations
      | Some r \<Rightarrow>
          (case posted r of
             None \<Rightarrow> lastCitations
           | Some m \<Rightarrow> onMessage (postMessage m) lastCitations))"

text \<open>One shadow stream from its first chunk to the sink.\<close>

definition shadowStream :: "platform \<Rightarrow> byte_stream \<Rightarrow> citation list \<Rightarrow> citation list" where
  "shadowStream pf stream lastCitations =
     deliver (consumeStream pf stream newTextDecoder) lastCitations"

text \<open>The reply to \<open>GET_CITATIONS\<close>: \<open>{ sources: lastCitations }\<close>.\<close>

definition getCitations :: "citation list \<Rightarrow> citation list" where
  "getCitations lastCitations = lastCitations"

section \<open>Interception of fetch\<close>

definition CONVERSATION_PATH :: jsstring where
  "CONVERSATION_PATH = js ''/backend-api/''"

definition CONVERSATION_SUBPATH :: jsstring where
  "CONVERSATION_SUBPATH = js ''conversation''"

text \<open>
  The first argument of \<open>fetch\<close>: a string, a \<open>Request\<close> (with its \<open>url\<close> and
  \<open>method\<close>) or a \<open>URL\<close> object, which has no \<open>url\<close> property. The second argument,
  when given, may name a method.
\<close>

datatype fetch_input =
    InString jsstring
  | InRequest jsstring jsstring
  | InURL jsstring

record fetch_init =
  init_method :: "jsstring option"

fun getRequestUrl :: "fetch_input \<Rightarrow> fetch_init option \<Rightarrow> jsstring" where
  "getRequestUrl (InString s) options = s"
| "getRequestUrl (InRequest u m) options = u"
| "getRequestUrl (InURL href) options = []"

fun getRequestMethod :: "platform \<Rightarrow> fetch_input \<Rightarrow> fetch_init option \<Rightarrow> jsstring" where
  "getRequestMethod pf (InRequest u m) options = (if m \<noteq> [] then m else js ''GET'')"
| "getRequestMethod pf input options =
     (case options of
        None \<Rightarrow> js ''GET''
      | Some opts \<Rightarrow>
          (case init_method opts of
             None \<Rightarrow> js ''GET''
           | Some m \<Rightarrow> if m \<noteq> [] then toUpperCase pf m else js ''GET''))"

text \<open>The test \<open>isConversation\<close> of the wrapper.\<close>

definition isConversation :: "jsstring \<Rightarrow> jsstring \<Rightarrow> bool" where
  "isConversation u m =
     (u \<noteq> [] \<and> includes_str u CONVERSATION_PATH \<and> includes_str u CONVERSATION_SUBPATH
      \<and> m = js ''POST'')"

text \<open>
  A response: \<open>ok\<close> is derived from the status; \<open>headers\<close> holds the names as the
  \<open>Headers\<close> object does, in lower case; \<open>body\<close> is \<open>None\<close> for \<open>null\<close>.
\<close>

record response =
  status :: nat
  statusText :: jsstring
  headers :: "(jsstring \<times> jsstring) list"
  body :: "byte_stream option"

definition ok :: "response \<Rightarrow> bool" where
  "ok r = (200 \<le> status r \<and> status r \<le> 299)"

text \<open>\<open>headers.get(name)\<close>: the values under the name joined by a comma and a space.\<close>

definition headers_get :: "(jsstring \<times> jsstring) list \<Rightarrow> jsstring \<Rightarrow> jsstring option" where
  "headers_get hs name =
     (case map snd (filter (\<lambda>(n, v). n = name) hs) of
        [] \<Rightarrow> None
      | v # vs \<Rightarrow> Some (foldl (\<lambda>acc x. acc @ js '', '' @ x) v vs))"

text \<open>\<open>body.tee()\<close>: two streams that deliver what the one would have.\<close>

definition tee :: "byte_stream \<Rightarrow> byte_stream \<times> byte_stream" where
  "tee s = (s, s)"

text \<open>
  \<open>new Response(stream, { status, statusText, headers })\<close> throws for a status outside
  200..599, for a status text that is no reason phrase, and for a body together with a
  status that allows none.
\<close>

datatype js_error = TypeError | RangeError | AbortError

definition isReasonPhrase :: "jsstring \<Rightarrow> bool" where
  "isReasonPhrase s =
     list_all (\<lambda>c. c = 0x09 \<or> (0x20 \<le> c \<and> c \<le> 0x7E) \<or> (0x80 \<le> c \<and> c \<le> 0xFF)) s"

definition isNullBodyStatus :: "nat \<Rightarrow> bool" where
  "isNullBodyStatus n = (n = 101 \<or> n = 103 \<or> n = 204 \<or> n = 205 \<or> n = 304)"

definition newResponse ::
  "byte_stream \<Rightarrow> nat \<Rightarrow> jsstring \<Rightarrow> (jsstring \<times> jsstring) list \<Rightarrow> js_error + response" where
  "newResponse stream st txt hs =
     (if st < 200 \<or> 599 < st then Inl RangeError
      else if \<not> isReasonPhrase txt then Inl TypeError
      else if isNullBodyStatus st then Inl TypeError
      else Inr \<lparr>status = st, statusText = txt, headers = hs, body = Some stream\<rparr>)"

text \<open>
  What a call of the wrapper does: the settlement of the promise it returns (\<open>Inl\<close> a
  rejection), and whether \<open>consumeStream\<close> ran on a branch of the body, with its outcome.
\<close>

datatype shadow = NotTeed | Teed "stream_outcome option"

record intercepted =
  returned :: "js_error + response"
  shadowed :: shadow

text \<open>The callback of \<open>.then\<close> in the wrapper.\<close>

definition onResponse :: "platform \<Rightarrow> response \<Rightarrow> intercepted" where
  "onResponse pf resp =
     (if \<not> ok resp \<or> body resp = None then \<lparr>returned = Inr resp, shadowed = NotTeed\<rparr>
      else
        (let contentType = (case headers_get (headers resp) (js ''content-type'') of
                              None \<Rightarrow> []
                            | Some v \<Rightarrow> v)
         in if \<not> includes_str contentType (js ''text/event-stream'')
               \<and> \<not> includes_str contentType (js ''text/plain'')
            then \<lparr>returned = Inr resp, shadowed = NotTeed\<rparr>
            else
              (let (stream1, stream2) = tee (the (body resp));
                   decoder = newTextDecoder
               in \<lparr>returned = newResponse stream1 (status resp) (statusText resp) (headers resp),
                    shadowed = Teed (consumeStream pf stream2 decoder)\<rparr>)))"

text \<open>
  \<open>window.fetch\<close> as the script installs it. \<open>originalFetch\<close> is the fetch it wraps:
  from the two arguments to the settlement of its promise.
\<close>

definition fetch ::
  "platform \<Rightarrow> (fetch_input \<Rightarrow> fetch_init option \<Rightarrow> js_error + response)
     \<Rightarrow> fetch_input \<Rightarrow> fetch_init option \<Rightarrow> intercepted" where
  "fetch pf originalFetch input init =
     (let u = getRequestUrl input init;
          m = getRequestMethod pf input init
      in if \<not> isConversation u m
         then \<lparr>returned = originalFetch input init, shadowed = NotTeed\<rparr>
         else (case originalFetch input init of
                 Inl err \<Rightarrow> \<lparr>returned = Inl err, shadowed = NotTeed\<rparr>
               | Inr resp \<Rightarrow> onResponse pf resp))"

section \<open>Auxiliary definitions for stating the properties\<close>

text \<open>
  The lines of a text, cut at each newline, and what is left after the last newline.
  \<open>cur\<close> is the part of the current line read so far.
\<close>

fun splitLines :: "jsstring \<Rightarrow> jsstring \<Rightarrow> jsstring list \<times> jsstring" where
  "splitLines cur [] = ([], cur)"
| "splitLines cur (c # cs) =
     (if c = 0x0A then (let (ls, r) = splitLines [] cs in (cur # ls, r))
      else splitLines (cur @ [c]) cs)"

text \<open>\<open>processLine\<close> over a list of lines, in order.\<close>

fun processLines :: "platform \<Rightarrow> jsstring list \<Rightarrow> citation list \<Rightarrow> citation list" where
  "processLines pf [] found = found"
| "processLines pf (l # ls) found = processLines pf ls (processLine pf l found)"

text \<open>
  The condition of the first \<open>if\<close> on a mapping in \<open>extractSourcesFromPayload\<close>:
  \<open>obj.type === 'sources_footnote' && Array.isArray(obj.sources)\<close>.
\<close>

definition isFootnoteNode :: "(jsstring \<times> json) list \<Rightarrow> bool" where
  "isFootnoteNode kvs =
     (getProp (JObj kvs) (js ''type'') = Some (JStr (js ''sources_footnote''))
      \<and> asArray (getProp (JObj kvs) (js ''sources'')) \<noteq> None)"

text \<open>
  Deduplication by \<open>url\<close> in the words of the specification: the first occurrence wins
  and the order of encounter is kept.
\<close>

fun firstByUrl :: "citation list \<Rightarrow> citation list" where
  "firstByUrl [] = []"
| "firstByUrl (x # xs) = x # firstByUrl (filter (\<lambda>y. url y \<noteq> url x) xs)"

text \<open>The citations of a completed stream, deduplicated: \<open>unique\<close> of the \<open>done\<close> branch.\<close>

definition streamCitations :: "platform \<Rightarrow> byte_stream \<Rightarrow> citation list" where
  "streamCitations pf stream =
     (case consumeStream pf stream newTextDecoder of
        None \<Rightarrow> []
      | Some r \<Rightarrow> uniqueFilter {} (collected (at_end r)))"

text \<open>
  What holds of every response that the browser's fetch resolves with: the status text is
  a reason phrase, and a status that allows no body comes with none.
\<close>

definition fetchedResponse :: "response \<Rightarrow> bool" where
  "fetchedResponse r =
     (isReasonPhrase (statusText r) \<and> (isNullBodyStatus (status r) \<longrightarrow> body r = None))"

text \<open>
  The test \<open>options && options.method\<close> of \<open>getRequestMethod\<close>: the method the second
  argument names, when it names one.
\<close>

definition givenMethod :: "fetch_init option \<Rightarrow> jsstring option" where
  "givenMethod init =
     (case init of
        None \<Rightarrow> None
      | Some opts \<Rightarrow>
          (case init_method opts of
             None \<Rightarrow> None
           | Some m \<Rightarrow> if m \<noteq> [] then Some m else None))"

text \<open>
  The tests of the \<open>.then\<close> callback that a response passes before its body is teed:
  it is \<open>ok\<close>, it has a body, and its content type names \<open>text/event-stream\<close> or
  \<open>text/plain\<close>.
\<close>

definition isStreamResponse :: "response \<Rightarrow> bool" where
  "isStreamResponse resp =
     (ok resp \<and> body resp \<noteq> None
      \<and> (includes_str (case headers_get (headers resp) (js ''content-type'') of
                          None \<Rightarrow> [] | Some v \<Rightarrow> v) (js ''text/event-stream'')
           \<or> includes_str (case headers_get (headers resp) (js ''content-type'') of
                             None \<Rightarrow> [] | Some v \<Rightarrow> v) (js ''text/plain'')))"

text \<open>The original fetch resolves with such a response.\<close>

definition resolvesWithStream :: "js_error + response \<Rightarrow> bool" where
  "resolvesWithStream r = (case r of Inl err \<Rightarrow> False | Inr resp \<Rightarrow> isStreamResponse resp)"

text \<open>
  The part of a URL before its query and its fragment, that is before the first \<open>?\<close> or
  \<open>#\<close>: the scheme, the host and the path.
\<close>

definition beforeQuery :: "jsstring \<Rightarrow> jsstring" where
  "beforeQuery u = takeWhile (\<lambda>c. c \<noteq> 0x3F \<and> c \<noteq> 0x23) u"

section \<open>Example data\<close>

text \<open>The bytes of an ASCII text.\<close>

definition bytes :: "string \<Rightarrow> byte list" where
  "bytes s = map (\<lambda>c. of_nat (of_char c)) s"

text \<open>
  A browser for the examples: the case mappings on ASCII letters, and \<open>JSON.parse\<close> and
  \<open>new URL\<close> on the strings the examples use, with the values the browser gives there.
\<close>

definition asciiLower :: "jsstring \<Rightarrow> jsstring" where
  "asciiLower s = map (\<lambda>c. if 0x41 \<le> c \<and> c \<le> 0x5A then c + 0x20 else c) s"

definition asciiUpper :: "jsstring \<Rightarrow> jsstring" where
  "asciiUpper s = map (\<lambda>c. if 0x61 \<le> c \<and> c \<le> 0x7A then c - 0x20 else c) s"

definition exampleJSON :: "(jsstring \<times> json) list" where
  \<open>exampleJSON =
     [(js ''{"a":1}'', JObj [(js ''a'', JNum 1)]),
      (js ''{"items":[{"url":"a"}]}'',
         JObj [(js ''items'', JArr [JObj [(js ''url'', JStr (js ''a''))]])]),
      (js ''{"items":[{"url":"a"},{"url":"b"},{"url":"a"}]}'',
         JObj [(js ''items'', JArr [JObj [(js ''url'', JStr (js ''a''))],
                                    JObj [(js ''url'', JStr (js ''b''))],
                                    JObj [(js ''url'', JStr (js ''a''))]])]),
      (js ''{"items":[{"url":"c"}]}'',
         JObj [(js ''items'', JArr [JObj [(js ''url'', JStr (js ''c''))]])])]\<close>

definition exampleURLs :: "(jsstring \<times> jsstring) list" where
  "exampleURLs =
     [(js ''https://chatgpt.com/c/1?x=2#top'', js ''chatgpt.com''),
      (js ''https://chat.openai.com/'', js ''chat.openai.com''),
      (js ''https://claude.ai/new'', js ''claude.ai''),
      (js ''https://gemini.google.com/app'', js ''gemini.google.com''),
      (js ''https://perplexity.ai/search?q=x'', js ''perplexity.ai''),
      (js ''https://example.com/'', js ''example.com''),
      (js ''https://notchatgpt.com/'', js ''notchatgpt.com'')]"

definition examplePlatform :: platform where
  "examplePlatform =
     \<lparr>JSON_parse = map_of exampleJSON, URL_hostname = map_of exampleURLs,
      toLowerCase = asciiLower, toUpperCase = asciiUpper\<rparr>"

definition citationOf :: "string \<Rightarrow> citation" where
  "citationOf u = \<lparr>url = js u, title = JStr [], attribution = JStr []\<rparr>"

definition exampleResponse :: response where
  "exampleResponse =
     \<lparr>status = 200, statusText = js ''OK'',
      headers = [(js ''content-type'', js ''text/event-stream; charset=utf-8'')],
      body = Some \<lparr>chunks = [bytes ''data: [DONE]'' @ [0x0A]], ending = Closed\<rparr>\<rparr>"

text \<open>Streams for the examples.\<close>

definition streamABA :: byte_stream where
  \<open>streamABA =
     \<lparr>chunks = [bytes ''data: {"items":[{"url":"a"},{"url":"b"},{"url":"a"}]}'' @ [0x0A],
                bytes ''data: [DONE]'' @ [0x0A]],
      ending = Closed\<rparr>\<close>

definition streamC :: byte_stream where
  \<open>streamC = \<lparr>chunks = [bytes ''data: {"items":[{"url":"c"}]}'' @ [0x0A]], ending = Closed\<rparr>\<close>

definition streamDoneOnly :: byte_stream where
  "streamDoneOnly = \<lparr>chunks = [bytes ''data: [DONE]'' @ [0x0A]], ending = Closed\<rparr>"

definition streamMalformed :: byte_stream where
  "streamMalformed = \<lparr>chunks = [bytes ''data: {nope'' @ [0x0A]], ending = Closed\<rparr>"

definition streamUnterminated :: byte_stream where
  \<open>streamUnterminated =
     \<lparr>chunks = [bytes ''data: {"items":[{"url":"a"}]}''], ending = Closed\<rparr>\<close>

definition streamTerminated :: byte_stream where
  \<open>streamTerminated =
     \<lparr>chunks = [bytes ''data: {"items":[{"url":"a"}]}'' @ [0x0A]], ending = Closed\<rparr>\<close>

definition streamWhole :: byte_stream where
  \<open>streamWhole =
     \<lparr>chunks = [bytes ''data: {"a":1}'' @ [0x0A, 0x0A] @ bytes ''data: [DONE]'' @ [0x0A]],
      ending = Closed\<rparr>\<close>

definition streamSplit :: byte_stream where
  \<open>streamSplit =
     \<lparr>chunks = [bytes ''data: {"'', bytes ''a":1}'' @ [0x0A, 0x0A] @ bytes ''da'',
                bytes ''ta: [DONE]'' @ [0x0A]],
      ending = Closed\<rparr>\<close>

section \<open>Properties of the string primitives and the line loop\<close>

text \<open>
  \<open>processBuffer\<close> is unfolded one step at a time, by the lemmas below; its defining
  equation would rewrite without end.
\<close>

declare processBuffer.simps [simp del]

lemma indexOf_ge: "- 1 \<le> indexOf s c"
  by (induction s) (auto simp: Let_def)

lemma indexOf_absent: "(indexOf s c = - 1) = (c \<notin> set s)"
proof (induction s)
  case Nil
  show ?case by simp
next
  case (Cons x xs)
  have "- 1 \<le> indexOf xs c" by (rule indexOf_ge)
  with Cons show ?case by (auto simp: Let_def)
qed

lemma processBuffer_rest:
  "c \<notin> set (buffer ob) \<Longrightarrow> c = 0x0A \<Longrightarrow> processBuffer pf ob = ob"
  by (subst processBuffer.simps) (simp add: indexOf_absent)

lemma processBuffer_line:
  assumes "(0x0A :: jschar) \<notin> set line"
  shows "processBuffer pf (ob\<lparr>buffer := line @ 0x0A # rest\<rparr>) =
         processBuffer pf (ob\<lparr>buffer := rest, collected := processLine pf line (collected ob),
                              emitted := emitted ob @ [line]\<rparr>)"
proof -
  have idx: "indexOf (line @ 0x0A # rest) 0x0A = int (length line)"
    using assms by (induction line) (auto simp: Let_def)
  have suc: "nat (int (length line) + 1) - length line = Suc 0"
    by simp
  show ?thesis
    by (subst processBuffer.simps) (simp add: idx suc slice_def sliceFrom_def clampIndex_def Let_def)
qed

lemma splitLines_no_newline:
  "(0x0A :: jschar) \<notin> set s \<Longrightarrow> splitLines cur s = ([], cur @ s)"
  by (induction s arbitrary: cur) auto

lemma splitLines_line:
  "(0x0A :: jschar) \<notin> set line \<Longrightarrow>
   splitLines cur (line @ 0x0A # rest) =
     ((cur @ line) # fst (splitLines [] rest), snd (splitLines [] rest))"
  by (induction line arbitrary: cur) (auto simp: case_prod_beta)

text \<open>
  The loop of \<open>processBuffer\<close> cuts the buffer exactly as \<open>splitLines\<close> does and
  handles the lines in order with \<open>processLine\<close>.
\<close>

lemma first_newline:
  "(c :: jschar) \<in> set s \<Longrightarrow> \<exists>line rest. s = line @ c # rest \<and> c \<notin> set line"
  by (metis split_list_first)

lemma processBuffer_splitLines:
  "processBuffer pf ob =
     ob\<lparr>buffer := snd (splitLines [] (buffer ob)),
        collected := processLines pf (fst (splitLines [] (buffer ob))) (collected ob),
        emitted := emitted ob @ fst (splitLines [] (buffer ob))\<rparr>"
proof (induction "length (buffer ob)" arbitrary: ob rule: less_induct)
  case less
  show ?case
  proof (cases "(0x0A :: jschar) \<in> set (buffer ob)")
    case False
    then show ?thesis
      by (simp add: processBuffer_rest splitLines_no_newline)
  next
    case True
    then obtain line rest where split: "buffer ob = line @ 0x0A # rest" and line: "0x0A \<notin> set line"
      using first_newline by blast
    let ?ob1 = "ob\<lparr>buffer := rest, collected := processLine pf line (collected ob),
                    emitted := emitted ob @ [line]\<rparr>"
    have "ob = ob\<lparr>buffer := line @ 0x0A # rest\<rparr>"
      using split by simp
    then have "processBuffer pf ob = processBuffer pf ?ob1"
      using processBuffer_line [OF line, where pf = pf and ob = ob and rest = rest] by simp
    moreover have "length (buffer ?ob1) < length (buffer ob)"
      using split by simp
    ultimately show ?thesis
      using less [of ?ob1] line split by (simp add: splitLines_line)
  qed
qed

lemma splitLines_append:
  "splitLines cur (s @ t) =
     (fst (splitLines cur s) @ fst (splitLines (snd (splitLines cur s)) t),
      snd (splitLines (snd (splitLines cur s)) t))"
  by (induction s arbitrary: cur) (auto simp: case_prod_beta)

lemma splitLines_residue: "(0x0A :: jschar) \<notin> set cur \<Longrightarrow> 0x0A \<notin> set (snd (splitLines cur s))"
  by (induction s arbitrary: cur) (auto simp: case_prod_beta)

lemma processLines_append:
  "processLines pf (xs @ ys) found = processLines pf ys (processLines pf xs found)"
  by (induction xs arbitrary: found) auto

text \<open>
  Feeding text to a buffer that has been processed is the same as processing all the text
  at once; so a second \<open>processBuffer()\<close>, as in the \<open>done\<close> branch, changes nothing.
\<close>

lemma splitLines_carry:
  "(0x0A :: jschar) \<notin> set r \<Longrightarrow> splitLines cur (r @ t) = splitLines (cur @ r) t"
  by (simp add: splitLines_append splitLines_no_newline)

lemma processBuffer_feed:
  "processBuffer pf ((processBuffer pf ob)\<lparr>buffer := buffer (processBuffer pf ob) @ t\<rparr>) =
   processBuffer pf (ob\<lparr>buffer := buffer ob @ t\<rparr>)"
proof -
  have res: "(0x0A :: jschar) \<notin> set (snd (splitLines [] (buffer ob)))"
    by (rule splitLines_residue) simp
  show ?thesis
    by (simp add: processBuffer_splitLines [of pf "_\<lparr>buffer := _\<rparr>"]
        processBuffer_splitLines [of pf ob] splitLines_append [of "[]" "buffer ob" t]
        splitLines_carry [OF res] processLines_append)
qed

lemma processBuffer_twice: "processBuffer pf (processBuffer pf ob) = processBuffer pf ob"
  using processBuffer_feed [of pf ob "[]"] by simp

text \<open>The decoder reads byte by byte, so chunk boundaries do not show in its text.\<close>

lemma decode_append:
  "decode d (a @ b) =
     (fst (decode d a) @ fst (decode (snd (decode d a)) b), snd (decode (snd (decode d a)) b))"
  by (induction a arbitrary: d) (auto simp: case_prod_beta Let_def)

lemma read_Errored: "read pf d ob cs Errored = None"
  by (induction cs arbitrary: d ob) (auto simp: case_prod_beta Let_def)

lemma read_Closed:
  "read pf d ob cs Closed =
     Some (streamDone pf (processBuffer pf (ob\<lparr>buffer := buffer ob @ fst (decode d (concat cs))\<rparr>)))"
proof (induction cs arbitrary: d ob)
  case Nil
  show ?case by simp
next
  case (Cons c cs)
  let ?t = "fst (decode d c)" and ?d1 = "snd (decode d c)"
  let ?ob1 = "processBuffer pf (ob\<lparr>buffer := buffer ob @ ?t\<rparr>)"
  have "read pf d ob (c # cs) Closed = read pf ?d1 ?ob1 cs Closed"
    by (simp add: case_prod_beta Let_def)
  also have "\<dots> = Some (streamDone pf (processBuffer pf
                      (?ob1\<lparr>buffer := buffer ?ob1 @ fst (decode ?d1 (concat cs))\<rparr>)))"
    by (rule Cons.IH)
  also have "processBuffer pf (?ob1\<lparr>buffer := buffer ?ob1 @ fst (decode ?d1 (concat cs))\<rparr>) =
             processBuffer pf (ob\<lparr>buffer := buffer ob @ fst (decode d (concat (c # cs)))\<rparr>)"
    using processBuffer_feed [of pf "ob\<lparr>buffer := buffer ob @ ?t\<rparr>" "fst (decode ?d1 (concat cs))"]
    by (simp add: decode_append)
  finally show ?case .
qed

lemma consumeStream_chunking:
  assumes "concat (chunks s1) = concat (chunks s2)" and "ending s1 = ending s2"
  shows "consumeStream pf s1 d = consumeStream pf s2 d"
proof (cases "ending s2")
  case Closed
  with assms show ?thesis by (simp add: consumeStream_def read_Closed)
next
  case Errored
  with assms show ?thesis by (simp add: consumeStream_def read_Errored)
qed

section \<open>Properties of the miner\<close>

text \<open>The miner only appends: what it is given stays in front, in order.\<close>

lemma pushSource_append: "pushSource s found = found @ pushSource s []"
  by (simp add: pushSource_def split: option.splits json.splits)

lemma pushSources_append: "pushSources ss found = found @ pushSources ss []"
proof (induction ss arbitrary: found)
  case Nil
  show ?case by simp
next
  case (Cons s ss)
  have "pushSources (s # ss) found = pushSource s found @ pushSources ss []"
    using Cons [of "pushSource s found"] by simp
  also have "\<dots> = found @ pushSource s [] @ pushSources ss []"
    using pushSource_append [of s found] by simp
  also have "pushSource s [] @ pushSources ss [] = pushSources (s # ss) []"
    using Cons [of "pushSource s []"] by simp
  finally show ?case .
qed

lemma extractEach_append_aux:
  assumes "\<And>x found. x \<in> set xs \<Longrightarrow>
             extractSourcesFromPayload x found = found @ extractSourcesFromPayload x []"
  shows "extractEach xs found = found @ extractEach xs []"
  using assms
proof (induction xs arbitrary: found)
  case Nil
  show ?case by simp
next
  case (Cons x xs)
  have x: "extractSourcesFromPayload x f = f @ extractSourcesFromPayload x []" for f
    using Cons.prems [of x f] by simp
  have xs: "extractEach xs f = f @ extractEach xs []" for f
  proof (rule Cons.IH)
    fix x' f'
    assume "x' \<in> set xs"
    then show "extractSourcesFromPayload x' f' = f' @ extractSourcesFromPayload x' []"
      using Cons.prems [of x' f'] by simp
  qed
  show ?case
    using x [of found] xs [of "extractSourcesFromPayload x found"]
      xs [of "extractSourcesFromPayload x []"] by simp
qed

lemma extractKeys_append_aux:
  assumes "\<And>v found. v \<in> snd ` set kvs \<Longrightarrow>
             extractSourcesFromPayload v found = found @ extractSourcesFromPayload v []"
  shows "extractKeys kvs found = found @ extractKeys kvs []"
  using assms
proof (induction kvs arbitrary: found)
  case Nil
  show ?case by simp
next
  case (Cons kv kvs)
  obtain k v where kv: "kv = (k, v)" by (cases kv)
  have v: "extractSourcesFromPayload v f = f @ extractSourcesFromPayload v []" for f
    using Cons.prems [of v f] kv by simp
  have rest: "extractKeys kvs f = f @ extractKeys kvs []" for f
  proof (rule Cons.IH)
    fix v' f'
    assume "v' \<in> snd ` set kvs"
    then show "extractSourcesFromPayload v' f' = f' @ extractSourcesFromPayload v' []"
      using Cons.prems [of v' f'] by simp
  qed
  show ?case
    using v [of found] rest [of "extractSourcesFromPayload v found"]
      rest [of "extractSourcesFromPayload v []"] kv by simp
qed

lemma extract_append:
  "extractSourcesFromPayload v found = found @ extractSourcesFromPayload v []"
proof (induction v arbitrary: found)
  case (JArr xs)
  show ?case
    using extractEach_append_aux [where xs = xs and found = found, OF JArr] by simp
next
  case (JObj kvs)
  have vals: "extractSourcesFromPayload v f = f @ extractSourcesFromPayload v []"
    if "v \<in> snd ` set kvs" for v f
  proof -
    from that obtain k where "(k, v) \<in> set kvs" by auto
    then show ?thesis using JObj [of "(k, v)" v f] by simp
  qed
  show ?case
  proof (cases "isFootnoteNode kvs")
    case True
    then show ?thesis
      using pushSources_append [of _ found] by (simp add: isFootnoteNode_def)
  next
    case False
    show ?thesis
    proof (cases "asArray (map_of kvs (js ''items''))")
      case None
      with False show ?thesis
        using extractKeys_append_aux [where kvs = kvs and found = found, OF vals] by (auto simp: isFootnoteNode_def)
    next
      case (Some its)
      with False show ?thesis
        using extractKeys_append_aux [where kvs = kvs and found = "pushSources its found", OF vals]
          extractKeys_append_aux [where kvs = kvs and found = "pushSources its []", OF vals]
          pushSources_append [of its found]
        by (auto simp: isFootnoteNode_def)
    qed
  qed
qed simp_all

lemma extractKeys_concat:
  "extractKeys kvs found = found @ concat (map (\<lambda>kv. extractSourcesFromPayload (snd kv) []) kvs)"
proof (induction kvs arbitrary: found)
  case Nil
  show ?case by simp
next
  case (Cons kv kvs)
  obtain k v where kv: "kv = (k, v)" by (cases kv)
  show ?case
    using Cons [of "extractSourcesFromPayload v found"] extract_append [of v found] kv by simp
qed

lemma consumeStream_Closed:
  assumes "ending s = Closed"
  shows "consumeStream pf s d =
     Some \<lparr>at_end =
             \<lparr>buffer = snd (splitLines [] (fst (decode d (concat (chunks s))))),
              collected = processLines pf (fst (splitLines [] (fst (decode d (concat (chunks s)))))) [],
              emitted = fst (splitLines [] (fst (decode d (concat (chunks s)))))\<rparr>,
           posted =
             (if uniqueFilter {}
                   (processLines pf (fst (splitLines [] (fst (decode d (concat (chunks s)))))) []) = []
              then None
              else Some \<lparr>mtype = CITATIONS_EVENT,
                         sources = uniqueFilter {}
                           (processLines pf
                              (fst (splitLines [] (fst (decode d (concat (chunks s)))))) [])\<rparr>)\<rparr>"
proof -
  let ?text = "fst (decode d (concat (chunks s)))"
  let ?ob = "\<lparr>buffer = snd (splitLines [] ?text),
              collected = processLines pf (fst (splitLines [] ?text)) [],
              emitted = fst (splitLines [] ?text)\<rparr>"
  have "(0x0A :: jschar) \<notin> set (snd (splitLines [] ?text))"
    by (rule splitLines_residue) simp
  then have rest: "processBuffer pf ?ob = ?ob"
    by (simp add: processBuffer_rest)
  have "consumeStream pf s d = Some (streamDone pf ?ob)"
    using assms by (simp add: consumeStream_def read_Closed processBuffer_splitLines)
  then show ?thesis
    by (simp add: streamDone_def rest Let_def)
qed

text \<open>On ASCII bytes the decoder gives the same code units.\<close>

lemma utf8_handler_ascii:
  "bytes_needed d = 0 \<Longrightarrow> b \<le> 0x7F \<Longrightarrow> utf8_handler d b = ([b], d)"
  by (simp add: utf8_handler_def utf8_lead_def)

lemma decode_ascii:
  assumes "bytes_needed d = 0" and "\<forall>b \<in> set bs. b \<le> 0x7F"
  shows "fst (decode d bs) = map ucast bs"
  using assms
proof (induction bs arbitrary: d)
  case Nil
  show ?case by simp
next
  case (Cons b bs)
  from Cons.prems have b: "unat b \<le> 0x7F"
    by (simp add: word_le_nat_alt)
  have h: "utf8_handler d (unat b) = ([unat b], d)"
    using Cons.prems b by (simp add: utf8_handler_ascii)
  have ne: "unat b \<noteq> 0xFEFF"
    using b by linarith
  have lt: "unat b < 0x10000"
    using b by linarith
  have u: "utf16 (unat b) = [ucast b]"
    unfolding utf16_def using lt by simp
  have s: "serialize d [unat b] = ([ucast b], d\<lparr>bom_seen := True\<rparr>)"
    using ne u by simp
  have "fst (decode (d\<lparr>bom_seen := True\<rparr>) bs) = map ucast bs"
    using Cons.prems by (intro Cons.IH) simp_all
  then show ?case
    by (simp add: h s case_prod_beta del: serialize.simps)
qed

lemma consumeStream_ascii:
  assumes "ending s = Closed" and "\<forall>b \<in> set (concat (chunks s)). b \<le> 0x7F"
    and "splitLines [] (map ucast (concat (chunks s))) = (ls, residue)"
  shows "consumeStream pf s newTextDecoder =
     Some \<lparr>at_end = \<lparr>buffer = residue, collected = processLines pf ls [], emitted = ls\<rparr>,
           posted =
             (if uniqueFilter {} (processLines pf ls []) = [] then None
              else Some \<lparr>mtype = CITATIONS_EVENT,
                         sources = uniqueFilter {} (processLines pf ls [])\<rparr>)\<rparr>"
proof -
  have "fst (decode newTextDecoder (concat (chunks s))) = map ucast (concat (chunks s))"
    using assms(2) by (intro decode_ascii) (simp_all add: newTextDecoder_def)
  then show ?thesis
    using consumeStream_Closed [OF assms(1), of pf newTextDecoder] assms(3) by simp
qed

section \<open>Examples\<close>

text \<open>The example lines and streams, run through the model.\<close>

text \<open>A two-byte character cut between two chunks comes out whole with the second chunk.\<close>

lemma example_decode_split:
  "fst (decode newTextDecoder [0xC3]) = []
   \<and> fst (decode (snd (decode newTextDecoder [0xC3])) [0xA9]) = [0xE9]
   \<and> fst (decode newTextDecoder [0xC3, 0xA9]) = [0xE9]"
  by (simp add: newTextDecoder_def utf8_handler_def utf8_lead_def utf16_def)

lemma line_done: "processLine examplePlatform (js ''data: [DONE]'') found = found"
  by (simp add: js_def processLine_def processDataLine_def trim_def isWhiteSpace_def
      sliceFrom_def clampIndex_def)

lemma line_malformed: "processLine examplePlatform (js ''data: {nope'') found = found"
  by (simp add: js_def processLine_def processDataLine_def trim_def isWhiteSpace_def
      sliceFrom_def clampIndex_def examplePlatform_def exampleJSON_def)

lemma line_a:
  \<open>processLine examplePlatform (js ''data: {"items":[{"url":"a"}]}'') [] = [citationOf ''a'']\<close>
  by (simp add: js_def processLine_def processDataLine_def trim_def isWhiteSpace_def
      sliceFrom_def clampIndex_def examplePlatform_def exampleJSON_def
      pushSource_def orEmpty_def citationOf_def)

lemma line_c:
  \<open>processLine examplePlatform (js ''data: {"items":[{"url":"c"}]}'') [] = [citationOf ''c'']\<close>
  by (simp add: js_def processLine_def processDataLine_def trim_def isWhiteSpace_def
      sliceFrom_def clampIndex_def examplePlatform_def exampleJSON_def
      pushSource_def orEmpty_def citationOf_def)

lemma line_aba:
  \<open>processLine examplePlatform (js ''data: {"items":[{"url":"a"},{"url":"b"},{"url":"a"}]}'') []
     = [citationOf ''a'', citationOf ''b'', citationOf ''a'']\<close>
  by (simp add: js_def processLine_def processDataLine_def trim_def isWhiteSpace_def
      sliceFrom_def clampIndex_def examplePlatform_def exampleJSON_def
      pushSource_def orEmpty_def citationOf_def)

lemma example_streamABA:
  \<open>consumeStream examplePlatform streamABA newTextDecoder
   = Some \<lparr>at_end =
             \<lparr>buffer = [],
              collected = [citationOf ''a'', citationOf ''b'', citationOf ''a''],
              emitted = [js ''data: {"items":[{"url":"a"},{"url":"b"},{"url":"a"}]}'',
                         js ''data: [DONE]'']\<rparr>,
           posted = Some \<lparr>mtype = CITATIONS_EVENT,
                          sources = [citationOf ''a'', citationOf ''b'']\<rparr>\<rparr>\<close>
proof -
  have ascii: "\<forall>b \<in> set (concat (chunks streamABA)). b \<le> 0x7F"
    by (simp add: streamABA_def bytes_def)
  have split: \<open>splitLines [] (map ucast (concat (chunks streamABA)))
      = ([js ''data: {"items":[{"url":"a"},{"url":"b"},{"url":"a"}]}'', js ''data: [DONE]''], [])\<close>
    by (simp add: streamABA_def bytes_def js_def)
  have unique: "uniqueFilter {} [citationOf ''a'', citationOf ''b'', citationOf ''a'']
      = [citationOf ''a'', citationOf ''b'']"
    by (simp add: citationOf_def js_def)
  show ?thesis
    using consumeStream_ascii [OF _ ascii split, of examplePlatform]
    by (simp add: streamABA_def line_aba line_done unique del: uniqueFilter.simps)
qed

lemma example_streamC:
  \<open>consumeStream examplePlatform streamC newTextDecoder
   = Some \<lparr>at_end = \<lparr>buffer = [], collected = [citationOf ''c''],
                     emitted = [js ''data: {"items":[{"url":"c"}]}'']\<rparr>,
           posted = Some \<lparr>mtype = CITATIONS_EVENT, sources = [citationOf ''c'']\<rparr>\<rparr>\<close>
proof -
  have ascii: "\<forall>b \<in> set (concat (chunks streamC)). b \<le> 0x7F"
    by (simp add: streamC_def bytes_def)
  have split: \<open>splitLines [] (map ucast (concat (chunks streamC)))
      = ([js ''data: {"items":[{"url":"c"}]}''], [])\<close>
    by (simp add: streamC_def bytes_def js_def)
  show ?thesis
    using consumeStream_ascii [OF _ ascii split, of examplePlatform]
    by (simp add: streamC_def line_c)
qed

lemma example_streamTerminated:
  \<open>consumeStream examplePlatform streamTerminated newTextDecoder
   = Some \<lparr>at_end = \<lparr>buffer = [], collected = [citationOf ''a''],
                     emitted = [js ''data: {"items":[{"url":"a"}]}'']\<rparr>,
           posted = Some \<lparr>mtype = CITATIONS_EVENT, sources = [citationOf ''a'']\<rparr>\<rparr>\<close>
proof -
  have ascii: "\<forall>b \<in> set (concat (chunks streamTerminated)). b \<le> 0x7F"
    by (simp add: streamTerminated_def bytes_def)
  have split: \<open>splitLines [] (map ucast (concat (chunks streamTerminated)))
      = ([js ''data: {"items":[{"url":"a"}]}''], [])\<close>
    by (simp add: streamTerminated_def bytes_def js_def)
  show ?thesis
    using consumeStream_ascii [OF _ ascii split, of examplePlatform]
    by (simp add: streamTerminated_def line_a)
qed

lemma example_streamUnterminated:
  \<open>consumeStream examplePlatform streamUnterminated newTextDecoder
   = Some \<lparr>at_end = \<lparr>buffer = js ''data: {"items":[{"url":"a"}]}'', collected = [],
                     emitted = []\<rparr>,
           posted = None\<rparr>\<close>
proof -
  have ascii: "\<forall>b \<in> set (concat (chunks streamUnterminated)). b \<le> 0x7F"
    by (simp add: streamUnterminated_def bytes_def)
  have split: \<open>splitLines [] (map ucast (concat (chunks streamUnterminated)))
      = ([], js ''data: {"items":[{"url":"a"}]}'')\<close>
    by (simp add: streamUnterminated_def bytes_def js_def)
  show ?thesis
    using consumeStream_ascii [OF _ ascii split, of examplePlatform]
    by (simp add: streamUnterminated_def)
qed

lemma example_streamDoneOnly:
  "consumeStream examplePlatform streamDoneOnly newTextDecoder
   = Some \<lparr>at_end = \<lparr>buffer = [], collected = [], emitted = [js ''data: [DONE]'']\<rparr>,
           posted = None\<rparr>"
proof -
  have ascii: "\<forall>b \<in> set (concat (chunks streamDoneOnly)). b \<le> 0x7F"
    by (simp add: streamDoneOnly_def bytes_def)
  have split: "splitLines [] (map ucast (concat (chunks streamDoneOnly))) = ([js ''data: [DONE]''], [])"
    by (simp add: streamDoneOnly_def bytes_def js_def)
  show ?thesis
    using consumeStream_ascii [OF _ ascii split, of examplePlatform]
    by (simp add: streamDoneOnly_def line_done)
qed

lemma example_streamMalformed:
  "consumeStream examplePlatform streamMalformed newTextDecoder
   = Some \<lparr>at_end = \<lparr>buffer = [], collected = [], emitted = [js ''data: {nope'']\<rparr>,
           posted = None\<rparr>"
proof -
  have ascii: "\<forall>b \<in> set (concat (chunks streamMalformed)). b \<le> 0x7F"
    by (simp add: streamMalformed_def bytes_def)
  have split: "splitLines [] (map ucast (concat (chunks streamMalformed))) = ([js ''data: {nope''], [])"
    by (simp add: streamMalformed_def bytes_def js_def)
  show ?thesis
    using consumeStream_ascii [OF _ ascii split, of examplePlatform]
    by (simp add: streamMalformed_def line_malformed)
qed

lemma example_streamSplit:
  \<open>consumeStream examplePlatform streamSplit newTextDecoder
   = Some \<lparr>at_end =
             \<lparr>buffer = [],
              collected = processLines examplePlatform
                            [js ''data: {"a":1}'', [], js ''data: [DONE]''] [],
              emitted = [js ''data: {"a":1}'', [], js ''data: [DONE]'']\<rparr>,
           posted =
             (if uniqueFilter {}
                   (processLines examplePlatform
                      [js ''data: {"a":1}'', [], js ''data: [DONE]''] []) = []
              then None
              else Some \<lparr>mtype = CITATIONS_EVENT,
                         sources = uniqueFilter {}
                           (processLines examplePlatform
                              [js ''data: {"a":1}'', [], js ''data: [DONE]''] [])\<rparr>)\<rparr>\<close>
proof -
  have ascii: "\<forall>b \<in> set (concat (chunks streamSplit)). b \<le> 0x7F"
    by (simp add: streamSplit_def bytes_def)
  have split: \<open>splitLines [] (map ucast (concat (chunks streamSplit)))
      = ([js ''data: {"a":1}'', [], js ''data: [DONE]''], [])\<close>
    by (simp add: streamSplit_def bytes_def js_def)
  show ?thesis
    by (rule consumeStream_ascii [OF _ ascii split]) (simp add: streamSplit_def)
qed

section \<open>The claims\<close>

subsection \<open>Chunk boundaries\<close>

text \<open>
  C4. However a byte sequence is cut into chunks, \<open>consumeStream\<close> ends the same way: two
  streams whose chunks concatenate to the same bytes (and that end alike) give the same
  outcome, that is the same emitted lines, the same collected citations, the same residue
  in the buffer and the same posted message. For a stream that closes, the emitted lines
  are the newline-terminated lines of the whole decoded text and the collected citations
  are those of processing these lines in order.
\<close>

theorem consumeStream_chunk_independent:
  assumes "concat (chunks s1) = concat (chunks s2)" and "ending s1 = ending s2"
  shows "consumeStream pf s1 decoder = consumeStream pf s2 decoder
         \<and> (ending s1 = Closed \<longrightarrow>
              (\<exists>r. consumeStream pf s1 decoder = Some r
                 \<and> emitted (at_end r) =
                     fst (splitLines [] (fst (decode decoder (concat (chunks s1)))))
                 \<and> collected (at_end r) = processLines pf (emitted (at_end r)) []))"
proof (intro conjI impI)
  show "consumeStream pf s1 decoder = consumeStream pf s2 decoder"
    using assms by (rule consumeStream_chunking)
next
  assume "ending s1 = Closed"
  then show "\<exists>r. consumeStream pf s1 decoder = Some r
                 \<and> emitted (at_end r) =
                     fst (splitLines [] (fst (decode decoder (concat (chunks s1)))))
                 \<and> collected (at_end r) = processLines pf (emitted (at_end r)) []"
    by (simp add: consumeStream_Closed)
qed

theorem consumeStream_chunk_independent_witness:
  \<open>concat (chunks streamWhole) = concat (chunks streamSplit)
   \<and> ending streamWhole = ending streamSplit
   \<and> ending streamWhole = Closed
   \<and> consumeStream examplePlatform streamWhole newTextDecoder
       = consumeStream examplePlatform streamSplit newTextDecoder
   \<and> map_option (emitted \<circ> at_end) (consumeStream examplePlatform streamWhole newTextDecoder)
       = Some [js ''data: {"a":1}'', [], js ''data: [DONE]'']\<close>
proof -
  have bytes_eq: "concat (chunks streamWhole) = concat (chunks streamSplit)"
    by (simp add: streamWhole_def streamSplit_def bytes_def)
  have ends: "ending streamWhole = ending streamSplit" "ending streamWhole = Closed"
    by (simp_all add: streamWhole_def streamSplit_def)
  have same: "consumeStream examplePlatform streamWhole newTextDecoder
       = consumeStream examplePlatform streamSplit newTextDecoder"
    using consumeStream_chunk_independent [OF bytes_eq ends(1), of examplePlatform newTextDecoder]
    by simp
  then have \<open>map_option (emitted \<circ> at_end)
        (consumeStream examplePlatform streamWhole newTextDecoder)
       = Some [js ''data: {"a":1}'', [], js ''data: [DONE]'']\<close>
    by (simp add: example_streamSplit)
  with bytes_eq ends same show ?thesis
    by simp
qed

subsection \<open>The miner at a mapping\<close>

text \<open>
  C3 as amended. At a mapping that is a footnote node (\<open>type\<close> is \<open>sources_footnote\<close> and
  \<open>sources\<close> is an array) the miner pushes the citations of \<open>sources\<close> and returns:
  nothing else of the node is visited. At every other mapping it pushes the citations of
  the \<open>items\<close> array, when there is one, and then those of the value of every key, in
  the order of the keys.
\<close>

theorem extract_at_mapping:
  "(isFootnoteNode kvs \<longrightarrow>
      extractSourcesFromPayload (JObj kvs) found =
        found @ pushSources (the (asArray (getProp (JObj kvs) (js ''sources'')))) [])
   \<and> (\<not> isFootnoteNode kvs \<longrightarrow>
      extractSourcesFromPayload (JObj kvs) found =
        found
        @ (case asArray (getProp (JObj kvs) (js ''items'')) of
             Some items \<Rightarrow> pushSources items []
           | None \<Rightarrow> [])
        @ concat (map (\<lambda>kv. extractSourcesFromPayload (snd kv) []) kvs))"
proof (intro conjI impI)
  assume "isFootnoteNode kvs"
  then show "extractSourcesFromPayload (JObj kvs) found =
        found @ pushSources (the (asArray (getProp (JObj kvs) (js ''sources'')))) []"
    using pushSources_append [of _ found] by (simp add: isFootnoteNode_def)
next
  assume "\<not> isFootnoteNode kvs"
  then show "extractSourcesFromPayload (JObj kvs) found =
        found
        @ (case asArray (getProp (JObj kvs) (js ''items'')) of
             Some items \<Rightarrow> pushSources items []
           | None \<Rightarrow> [])
        @ concat (map (\<lambda>kv. extractSourcesFromPayload (snd kv) []) kvs)"
    using pushSources_append [of _ found]
    by (auto simp: isFootnoteNode_def extractKeys_concat split: option.splits)
qed

theorem extract_at_mapping_witness:
  "isFootnoteNode
     [(js ''type'', JStr (js ''sources_footnote'')),
      (js ''sources'', JArr [JObj [(js ''url'', JStr (js ''s''))]]),
      (js ''items'', JArr [JObj [(js ''url'', JStr (js ''a''))]])]
   \<and> extractSourcesFromPayload
        (JObj [(js ''type'', JStr (js ''sources_footnote'')),
               (js ''sources'', JArr [JObj [(js ''url'', JStr (js ''s''))]]),
               (js ''items'', JArr [JObj [(js ''url'', JStr (js ''a''))]])]) []
       = [citationOf ''s'']
   \<and> \<not> isFootnoteNode
        [(js ''items'', JArr [JObj [(js ''url'', JStr (js ''a''))]]),
         (js ''more'', JObj [(js ''items'', JArr [JObj [(js ''url'', JStr (js ''b''))]])])]
   \<and> extractSourcesFromPayload
        (JObj [(js ''items'', JArr [JObj [(js ''url'', JStr (js ''a''))]]),
               (js ''more'', JObj [(js ''items'', JArr [JObj [(js ''url'', JStr (js ''b''))]])])]) []
       = [citationOf ''a'', citationOf ''b'']"
  using extract_at_mapping
    [of "[(js ''type'', JStr (js ''sources_footnote'')),
          (js ''sources'', JArr [JObj [(js ''url'', JStr (js ''s''))]]),
          (js ''items'', JArr [JObj [(js ''url'', JStr (js ''a''))]])]" "[]"]
    extract_at_mapping
    [of "[(js ''items'', JArr [JObj [(js ''url'', JStr (js ''a''))]]),
          (js ''more'', JObj [(js ''items'', JArr [JObj [(js ''url'', JStr (js ''b''))]])])]" "[]"]
  by (simp add: isFootnoteNode_def js_def pushSource_def orEmpty_def citationOf_def)

text \<open>
  The claim as stated fails: a footnote node with an \<open>items\<close> array and a further key
  yields nothing from either, while the same node without the marker yields both.
\<close>

theorem footnote_node_counterexample:
  "extractSourcesFromPayload
     (JObj [(js ''type'', JStr (js ''sources_footnote'')),
            (js ''sources'', JArr []),
            (js ''items'', JArr [JObj [(js ''url'', JStr (js ''a''))]]),
            (js ''more'', JObj [(js ''items'', JArr [JObj [(js ''url'', JStr (js ''b''))]])])]) []
     = []
   \<and> extractSourcesFromPayload
       (JObj [(js ''sources'', JArr []),
              (js ''items'', JArr [JObj [(js ''url'', JStr (js ''a''))]]),
              (js ''more'', JObj [(js ''items'', JArr [JObj [(js ''url'', JStr (js ''b''))]])])]) []
     = [citationOf ''a'', citationOf ''b'']"
  by (simp add: js_def pushSource_def orEmpty_def citationOf_def)

subsection \<open>URL classifier\<close>

text \<open>
  C7. The popup's copy and the content script's copy of \<open>detectServiceFromUrl\<close> return the
  same result on every string.
\<close>

theorem detectServiceFromUrl_copies_agree:
  "detectServiceFromUrl_popup pf u = detectServiceFromUrl_content pf u"
  by (simp add: detectServiceFromUrl_popup_def detectServiceFromUrl_content_def)

theorem detectServiceFromUrl_copies_agree_witness:
  "detectServiceFromUrl_popup examplePlatform (js ''https://claude.ai/new'')
     = detectServiceFromUrl_content examplePlatform (js ''https://claude.ai/new'')"
  using detectServiceFromUrl_copies_agree [of examplePlatform "js ''https://claude.ai/new''"]
  by simp

lemma serviceTable_lookup:
  "map_of serviceTable host =
     (if host = js ''chatgpt.com'' \<or> host = js ''chat.openai.com'' then Some (js ''chatgpt'')
      else if host = js ''claude.ai'' then Some (js ''claude'')
      else if host = js ''gemini.google.com'' then Some (js ''gemini'')
      else if host = js ''perplexity.ai'' then Some (js ''perplexity'')
      else None)"
  by (simp add: serviceTable_def)

lemma serviceTable_nonempty: "map_of serviceTable host = Some svc \<Longrightarrow> svc \<noteq> []"
  by (auto simp: serviceTable_lookup js_def split: if_splits)

lemma detect_popup_table:
  "detectServiceFromUrl_popup pf u =
     (if u = [] then None
      else case URL_hostname pf u of
             None \<Rightarrow> None
           | Some h \<Rightarrow> map_of serviceTable (toLowerCase pf h))"
  by (simp add: detectServiceFromUrl_popup_def serviceTable_lookup Let_def split: option.splits)

lemma detect_content_table:
  "detectServiceFromUrl_content pf u =
     (if u = [] then None
      else case URL_hostname pf u of
             None \<Rightarrow> None
           | Some h \<Rightarrow> map_of serviceTable (toLowerCase pf h))"
  by (simp add: detectServiceFromUrl_content_def serviceTable_lookup Let_def split: option.splits)

text \<open>
  C6. Both copies of \<open>detectServiceFromUrl\<close> are functions of the hostname alone: on a
  non-empty URL that parses they look the lowercased hostname up in the fixed table, so
  two URLs with the same hostname are classified alike whatever their path, query or
  fragment; a hostname in the table gives its identifier; and an empty URL, a URL that
  does not parse, and a hostname outside the table give \<open>null\<close>, which both call sites
  read as \<open>unknown\<close>. Nothing is raised: the result is a value on every input.
\<close>

theorem detectServiceFromUrl_classifies:
  "(\<forall>h svc. u \<noteq> [] \<and> URL_hostname pf u = Some h
        \<and> map_of serviceTable (toLowerCase pf h) = Some svc \<longrightarrow>
        detectServiceFromUrl_popup pf u = Some svc
        \<and> detectServiceFromUrl_content pf u = Some svc
        \<and> orUnknown (detectServiceFromUrl_popup pf u) = svc
        \<and> orUnknown (detectServiceFromUrl_content pf u) = svc)
   \<and> (u = [] \<or> URL_hostname pf u = None
        \<or> (\<exists>h. URL_hostname pf u = Some h \<and> map_of serviceTable (toLowerCase pf h) = None) \<longrightarrow>
        detectServiceFromUrl_popup pf u = None
        \<and> detectServiceFromUrl_content pf u = None
        \<and> orUnknown (detectServiceFromUrl_popup pf u) = js ''unknown''
        \<and> orUnknown (detectServiceFromUrl_content pf u) = js ''unknown'')
   \<and> (\<forall>u'. u \<noteq> [] \<and> u' \<noteq> [] \<and> URL_hostname pf u = URL_hostname pf u' \<longrightarrow>
        detectServiceFromUrl_popup pf u = detectServiceFromUrl_popup pf u'
        \<and> detectServiceFromUrl_content pf u = detectServiceFromUrl_content pf u')"
proof (intro conjI allI impI)
  fix h svc
  assume a: "u \<noteq> [] \<and> URL_hostname pf u = Some h
        \<and> map_of serviceTable (toLowerCase pf h) = Some svc"
  then have "svc \<noteq> []"
    using serviceTable_nonempty by blast
  with a show "detectServiceFromUrl_popup pf u = Some svc"
    and "detectServiceFromUrl_content pf u = Some svc"
    and "orUnknown (detectServiceFromUrl_popup pf u) = svc"
    and "orUnknown (detectServiceFromUrl_content pf u) = svc"
    by (simp_all add: detect_popup_table detect_content_table orUnknown_def)
next
  assume "u = [] \<or> URL_hostname pf u = None
        \<or> (\<exists>h. URL_hostname pf u = Some h \<and> map_of serviceTable (toLowerCase pf h) = None)"
  then have "detectServiceFromUrl_popup pf u = None" and "detectServiceFromUrl_content pf u = None"
    by (auto simp: detect_popup_table detect_content_table)
  then show "detectServiceFromUrl_popup pf u = None"
    and "detectServiceFromUrl_content pf u = None"
    and "orUnknown (detectServiceFromUrl_popup pf u) = js ''unknown''"
    and "orUnknown (detectServiceFromUrl_content pf u) = js ''unknown''"
    by (simp_all add: orUnknown_def)
next
  fix u'
  assume "u \<noteq> [] \<and> u' \<noteq> [] \<and> URL_hostname pf u = URL_hostname pf u'"
  then show "detectServiceFromUrl_popup pf u = detectServiceFromUrl_popup pf u'"
    and "detectServiceFromUrl_content pf u = detectServiceFromUrl_content pf u'"
    by (simp_all add: detect_popup_table detect_content_table)
qed

theorem detectServiceFromUrl_classifies_witness:
  "js ''https://chatgpt.com/c/1?x=2#top'' \<noteq> []
   \<and> URL_hostname examplePlatform (js ''https://chatgpt.com/c/1?x=2#top'') = Some (js ''chatgpt.com'')
   \<and> map_of serviceTable (toLowerCase examplePlatform (js ''chatgpt.com'')) = Some (js ''chatgpt'')
   \<and> orUnknown (detectServiceFromUrl_popup examplePlatform (js ''https://chatgpt.com/c/1?x=2#top''))
       = js ''chatgpt''
   \<and> URL_hostname examplePlatform (js ''not a url'') = None
   \<and> orUnknown (detectServiceFromUrl_content examplePlatform (js ''not a url'')) = js ''unknown''
   \<and> URL_hostname examplePlatform (js ''https://notchatgpt.com/'') = Some (js ''notchatgpt.com'')
   \<and> map_of serviceTable (toLowerCase examplePlatform (js ''notchatgpt.com'')) = None
   \<and> orUnknown (detectServiceFromUrl_popup examplePlatform (js ''https://notchatgpt.com/''))
       = js ''unknown''"
proof -
  let ?pf = examplePlatform
  have h1: "js ''https://chatgpt.com/c/1?x=2#top'' \<noteq> []
      \<and> URL_hostname ?pf (js ''https://chatgpt.com/c/1?x=2#top'') = Some (js ''chatgpt.com'')
      \<and> map_of serviceTable (toLowerCase ?pf (js ''chatgpt.com'')) = Some (js ''chatgpt'')"
    by (simp add: examplePlatform_def exampleURLs_def serviceTable_def asciiLower_def js_def)
  have h2: "URL_hostname ?pf (js ''not a url'') = None"
    by (simp add: examplePlatform_def exampleURLs_def js_def)
  have h3: "URL_hostname ?pf (js ''https://notchatgpt.com/'') = Some (js ''notchatgpt.com'')
      \<and> map_of serviceTable (toLowerCase ?pf (js ''notchatgpt.com'')) = None"
    by (simp add: examplePlatform_def exampleURLs_def serviceTable_def asciiLower_def js_def)
  have c1: "orUnknown (detectServiceFromUrl_popup ?pf (js ''https://chatgpt.com/c/1?x=2#top''))
       = js ''chatgpt''"
    using detectServiceFromUrl_classifies [of "js ''https://chatgpt.com/c/1?x=2#top''" ?pf] h1
    by blast
  have c2: "orUnknown (detectServiceFromUrl_content ?pf (js ''not a url'')) = js ''unknown''"
    using detectServiceFromUrl_classifies [of "js ''not a url''" ?pf] h2
    by blast
  have c3: "orUnknown (detectServiceFromUrl_popup ?pf (js ''https://notchatgpt.com/''))
       = js ''unknown''"
    using detectServiceFromUrl_classifies [of "js ''https://notchatgpt.com/''" ?pf] h3
    by blast
  from h1 h2 h3 c1 c2 c3 show ?thesis
    by blast
qed

subsection \<open>Interception\<close>

lemma fetch_out_of_scope:
  "\<not> isConversation (getRequestUrl input init) (getRequestMethod pf input init) \<Longrightarrow>
   fetch pf originalFetch input init = \<lparr>returned = originalFetch input init, shadowed = NotTeed\<rparr>"
  by (simp add: fetch_def Let_def)

lemma newResponse_fetched:
  assumes "fetchedResponse resp" and "ok resp" and "body resp = Some stream"
  shows "newResponse stream (status resp) (statusText resp) (headers resp) = Inr resp"
proof -
  from assms have "\<not> isNullBodyStatus (status resp)" and "isReasonPhrase (statusText resp)"
    by (auto simp: fetchedResponse_def)
  moreover from assms have "\<not> (status resp < 200 \<or> 599 < status resp)"
    by (simp add: ok_def)
  ultimately show ?thesis
    using assms by (simp add: newResponse_def)
qed

lemma onResponse_returned:
  assumes "fetchedResponse resp"
  shows "returned (onResponse pf resp) = Inr resp"
proof (cases "\<not> ok resp \<or> body resp = None")
  case True
  then show ?thesis
    by (auto simp: onResponse_def)
next
  case False
  then obtain stream where "ok resp" and "body resp = Some stream"
    by auto
  with assms show ?thesis
    by (simp add: onResponse_def Let_def tee_def newResponse_fetched)
qed

lemma isConversation_iff:
  "isConversation u m \<longleftrightarrow>
     includes_str u CONVERSATION_PATH \<and> includes_str u CONVERSATION_SUBPATH \<and> m = js ''POST''"
proof -
  have "CONVERSATION_PATH \<noteq> []"
    by (simp add: CONVERSATION_PATH_def js_def)
  then have "u = [] \<Longrightarrow> \<not> includes_str u CONVERSATION_PATH"
    by simp
  then show ?thesis
    unfolding isConversation_def by blast
qed

lemma getRequestMethod_string:
  "getRequestMethod pf (InString s) init =
     (case givenMethod init of None \<Rightarrow> js ''GET'' | Some m \<Rightarrow> toUpperCase pf m)"
  by (simp add: givenMethod_def split: option.splits)

lemma getRequestMethod_request:
  "getRequestMethod pf (InRequest u m) init = js ''POST'' \<longleftrightarrow> m = js ''POST''"
  by (auto simp: js_def)

lemma onResponse_shadowed:
  "shadowed (onResponse pf resp) =
     (if isStreamResponse resp
      then Teed (consumeStream pf (the (body resp)) newTextDecoder)
      else NotTeed)"
  by (auto simp: onResponse_def isStreamResponse_def Let_def tee_def)

lemma fetch_shadowed:
  "shadowed (fetch pf originalFetch input init) =
     (if isConversation (getRequestUrl input init) (getRequestMethod pf input init)
      then (case originalFetch input init of
              Inl err \<Rightarrow> NotTeed
            | Inr resp \<Rightarrow>
                if isStreamResponse resp
                then Teed (consumeStream pf (the (body resp)) newTextDecoder)
                else NotTeed)
      else NotTeed)"
  by (simp add: fetch_def Let_def onResponse_shadowed split: sum.splits)

lemma fetch_teed_iff:
  "shadowed (fetch pf originalFetch input init) \<noteq> NotTeed \<longleftrightarrow>
     isConversation (getRequestUrl input init) (getRequestMethod pf input init)
     \<and> resolvesWithStream (originalFetch input init)"
  by (simp add: fetch_shadowed resolvesWithStream_def split: sum.splits)

text \<open>
  C8 as amended. For a call with a URL string as its first argument, and for a call with
  a \<open>Request\<close> and no method in the second argument, the body is teed and decoded exactly
  when that URL string contains both \<open>/backend-api/\<close> and \<open>conversation\<close> (anywhere in
  it), the method is \<open>POST\<close> (the method of the second argument in upper case, or the
  \<open>Request\<close>'s own) and the original fetch resolves with a response that is \<open>ok\<close>, has a
  body and declares an event-stream or plain-text content type. Whenever a body is teed,
  \<open>consumeStream\<close> runs on it with a new decoder. Every call that the wrapper takes as
  out of scope is the original fetch with the same arguments and nothing more: the result
  is the original's, no body is teed and \<open>consumeStream\<close> is not called.
\<close>

theorem fetch_scope:
  "(shadowed (fetch pf originalFetch (InString s) init) \<noteq> NotTeed \<longleftrightarrow>
      includes_str s CONVERSATION_PATH \<and> includes_str s CONVERSATION_SUBPATH
      \<and> (\<exists>m. givenMethod init = Some m \<and> toUpperCase pf m = js ''POST'')
      \<and> resolvesWithStream (originalFetch (InString s) init))
   \<and> (givenMethod init = None \<longrightarrow>
        (shadowed (fetch pf originalFetch (InRequest u rm) init) \<noteq> NotTeed \<longleftrightarrow>
           includes_str u CONVERSATION_PATH \<and> includes_str u CONVERSATION_SUBPATH
           \<and> rm = js ''POST''
           \<and> resolvesWithStream (originalFetch (InRequest u rm) init)))
   \<and> (shadowed (fetch pf originalFetch input init) \<noteq> NotTeed \<longrightarrow>
        (\<exists>resp stream. originalFetch input init = Inr resp \<and> body resp = Some stream
           \<and> shadowed (fetch pf originalFetch input init)
               = Teed (consumeStream pf stream newTextDecoder)))
   \<and> (\<not> isConversation (getRequestUrl input init) (getRequestMethod pf input init) \<longrightarrow>
        fetch pf originalFetch input init
          = \<lparr>returned = originalFetch input init, shadowed = NotTeed\<rparr>)"
proof (intro conjI impI)
  have get: "js ''GET'' \<noteq> js ''POST''"
    by (simp add: js_def)
  have "getRequestMethod pf (InString s) init = js ''POST'' \<longleftrightarrow>
      (\<exists>m. givenMethod init = Some m \<and> toUpperCase pf m = js ''POST'')"
    unfolding getRequestMethod_string using get by (cases "givenMethod init") simp_all
  then show "shadowed (fetch pf originalFetch (InString s) init) \<noteq> NotTeed \<longleftrightarrow>
      includes_str s CONVERSATION_PATH \<and> includes_str s CONVERSATION_SUBPATH
      \<and> (\<exists>m. givenMethod init = Some m \<and> toUpperCase pf m = js ''POST'')
      \<and> resolvesWithStream (originalFetch (InString s) init)"
    by (simp add: fetch_teed_iff isConversation_iff)
next
  show "shadowed (fetch pf originalFetch (InRequest u rm) init) \<noteq> NotTeed \<longleftrightarrow>
           includes_str u CONVERSATION_PATH \<and> includes_str u CONVERSATION_SUBPATH
           \<and> rm = js ''POST''
           \<and> resolvesWithStream (originalFetch (InRequest u rm) init)"
    by (simp only: fetch_teed_iff isConversation_iff getRequestMethod_request getRequestUrl.simps
        conj_assoc)
next
  assume "shadowed (fetch pf originalFetch input init) \<noteq> NotTeed"
  then show "\<exists>resp stream. originalFetch input init = Inr resp \<and> body resp = Some stream
           \<and> shadowed (fetch pf originalFetch input init)
               = Teed (consumeStream pf stream newTextDecoder)"
    by (auto simp: fetch_shadowed isStreamResponse_def split: if_splits sum.splits)
next
  assume "\<not> isConversation (getRequestUrl input init) (getRequestMethod pf input init)"
  then show "fetch pf originalFetch input init
          = \<lparr>returned = originalFetch input init, shadowed = NotTeed\<rparr>"
    by (rule fetch_out_of_scope)
qed

lemma exampleResponse_stream: "isStreamResponse exampleResponse"
  by (simp add: isStreamResponse_def ok_def exampleResponse_def headers_get_def js_def)

lemma conversationUrl_includes:
  "includes_str (js ''https://chatgpt.com/backend-api/f/conversation'') CONVERSATION_PATH
   \<and> includes_str (js ''https://chatgpt.com/backend-api/f/conversation'') CONVERSATION_SUBPATH"
  by (simp add: CONVERSATION_PATH_def CONVERSATION_SUBPATH_def js_def)

theorem fetch_scope_witness:
  "shadowed (fetch examplePlatform (\<lambda>i opts. Inr exampleResponse)
       (InString (js ''https://chatgpt.com/backend-api/f/conversation''))
       (Some \<lparr>init_method = Some (js ''post'')\<rparr>))
     = Teed (consumeStream examplePlatform
               \<lparr>chunks = [bytes ''data: [DONE]'' @ [0x0A]], ending = Closed\<rparr> newTextDecoder)
   \<and> givenMethod None = None
   \<and> shadowed (fetch examplePlatform (\<lambda>i opts. Inr exampleResponse)
       (InRequest (js ''https://chatgpt.com/backend-api/f/conversation'') (js ''POST'')) None)
     \<noteq> NotTeed
   \<and> \<not> isConversation
       (getRequestUrl (InString (js ''https://chatgpt.com/backend-api/f/conversation'')) None)
       (getRequestMethod examplePlatform
          (InString (js ''https://chatgpt.com/backend-api/f/conversation'')) None)
   \<and> fetch examplePlatform (\<lambda>i opts. Inr exampleResponse)
        (InString (js ''https://chatgpt.com/backend-api/f/conversation'')) None
       = \<lparr>returned = Inr exampleResponse, shadowed = NotTeed\<rparr>"
proof -
  let ?u = "js ''https://chatgpt.com/backend-api/f/conversation''"
  let ?post = "Some \<lparr>init_method = Some (js ''post'')\<rparr>"
  let ?orig = "\<lambda>(i :: fetch_input) (opts :: fetch_init option).
                 (Inr exampleResponse :: js_error + response)"
  have gm: "givenMethod ?post = Some (js ''post'')"
    by (simp add: givenMethod_def js_def)
  have up: "toUpperCase examplePlatform (js ''post'') = js ''POST''"
    by (simp add: examplePlatform_def asciiUpper_def js_def)
  have rs: "resolvesWithStream (Inr exampleResponse)"
    by (simp add: resolvesWithStream_def exampleResponse_stream)
  have teed: "shadowed (fetch examplePlatform ?orig (InString ?u) ?post) \<noteq> NotTeed"
    using fetch_scope [of examplePlatform ?orig ?u ?post] conversationUrl_includes gm up rs
    by simp
  have bd: "body exampleResponse
      = Some \<lparr>chunks = [bytes ''data: [DONE]'' @ [0x0A]], ending = Closed\<rparr>"
    by (simp add: exampleResponse_def)
  have c1: "shadowed (fetch examplePlatform ?orig (InString ?u) ?post)
     = Teed (consumeStream examplePlatform
               \<lparr>chunks = [bytes ''data: [DONE]'' @ [0x0A]], ending = Closed\<rparr> newTextDecoder)"
    using fetch_scope [where pf = examplePlatform and originalFetch = ?orig
        and input = "InString ?u" and init = ?post] teed bd
    by auto
  have gn: "givenMethod None = None"
    by (simp add: givenMethod_def)
  have c2: "shadowed (fetch examplePlatform ?orig (InRequest ?u (js ''POST'')) None) \<noteq> NotTeed"
    using fetch_scope [where pf = examplePlatform and originalFetch = ?orig
        and init = None and u = ?u and rm = "js ''POST''"] conversationUrl_includes gn rs
    by simp
  have out: "\<not> isConversation (getRequestUrl (InString ?u) None)
       (getRequestMethod examplePlatform (InString ?u) None)"
    by (simp add: isConversation_def js_def)
  have c3: "fetch examplePlatform ?orig (InString ?u) None
       = \<lparr>returned = Inr exampleResponse, shadowed = NotTeed\<rparr>"
    using fetch_scope [where pf = examplePlatform and originalFetch = ?orig
        and input = "InString ?u" and init = None] out
    by blast
  from c1 gn c2 out c3 show ?thesis
    by blast
qed

text \<open>
  The claim as stated fails in both directions. A \<open>POST\<close> to a URL that carries
  \<open>conversation\<close> in its query only, not in its path, is teed. A \<open>POST\<close> to the
  conversation URL itself is passed through untouched when the URL is given as a \<open>URL\<close>
  object, and when it is given as a \<open>Request\<close> whose method \<open>GET\<close> the second argument
  overrides with \<open>POST\<close>.
\<close>

theorem fetch_scope_counterexample:
  "\<not> includes_str (beforeQuery (js ''https://chatgpt.com/backend-api/x?next=conversation''))
        CONVERSATION_SUBPATH
   \<and> shadowed (fetch examplePlatform (\<lambda>i opts. Inr exampleResponse)
        (InString (js ''https://chatgpt.com/backend-api/x?next=conversation''))
        (Some \<lparr>init_method = Some (js ''POST'')\<rparr>)) \<noteq> NotTeed
   \<and> includes_str (beforeQuery (js ''https://chatgpt.com/backend-api/f/conversation''))
        CONVERSATION_PATH
   \<and> includes_str (beforeQuery (js ''https://chatgpt.com/backend-api/f/conversation''))
        CONVERSATION_SUBPATH
   \<and> fetch examplePlatform (\<lambda>i opts. Inr exampleResponse)
        (InURL (js ''https://chatgpt.com/backend-api/f/conversation''))
        (Some \<lparr>init_method = Some (js ''POST'')\<rparr>)
       = \<lparr>returned = Inr exampleResponse, shadowed = NotTeed\<rparr>
   \<and> fetch examplePlatform (\<lambda>i opts. Inr exampleResponse)
        (InRequest (js ''https://chatgpt.com/backend-api/f/conversation'') (js ''GET''))
        (Some \<lparr>init_method = Some (js ''POST'')\<rparr>)
       = \<lparr>returned = Inr exampleResponse, shadowed = NotTeed\<rparr>"
proof -
  let ?q = "js ''https://chatgpt.com/backend-api/x?next=conversation''"
  let ?u = "js ''https://chatgpt.com/backend-api/f/conversation''"
  let ?post = "Some \<lparr>init_method = Some (js ''POST'')\<rparr>"
  let ?orig = "\<lambda>(i :: fetch_input) (opts :: fetch_init option).
                 (Inr exampleResponse :: js_error + response)"
  have p1: "\<not> includes_str (beforeQuery ?q) CONVERSATION_SUBPATH"
    by (simp add: beforeQuery_def CONVERSATION_SUBPATH_def js_def)
  have m: "getRequestMethod examplePlatform (InString ?q) ?post = js ''POST''"
    by (simp add: examplePlatform_def asciiUpper_def js_def)
  have "isConversation (getRequestUrl (InString ?q) ?post)
          (getRequestMethod examplePlatform (InString ?q) ?post)"
    unfolding m
    by (simp add: isConversation_def CONVERSATION_PATH_def CONVERSATION_SUBPATH_def js_def)
  then have p2: "shadowed (fetch examplePlatform ?orig (InString ?q) ?post) \<noteq> NotTeed"
    by (simp add: fetch_teed_iff resolvesWithStream_def exampleResponse_stream)
  have p3: "includes_str (beforeQuery ?u) CONVERSATION_PATH
      \<and> includes_str (beforeQuery ?u) CONVERSATION_SUBPATH"
    by (simp add: beforeQuery_def CONVERSATION_PATH_def CONVERSATION_SUBPATH_def js_def)
  have "\<not> isConversation (getRequestUrl (InURL ?u) ?post)
          (getRequestMethod examplePlatform (InURL ?u) ?post)"
    by (simp add: isConversation_def)
  then have p4: "fetch examplePlatform ?orig (InURL ?u) ?post
       = \<lparr>returned = Inr exampleResponse, shadowed = NotTeed\<rparr>"
    by (simp add: fetch_out_of_scope)
  have "\<not> isConversation (getRequestUrl (InRequest ?u (js ''GET'')) ?post)
          (getRequestMethod examplePlatform (InRequest ?u (js ''GET'')) ?post)"
    by (simp add: isConversation_def js_def)
  then have p5: "fetch examplePlatform ?orig (InRequest ?u (js ''GET'')) ?post
       = \<lparr>returned = Inr exampleResponse, shadowed = NotTeed\<rparr>"
    by (simp add: fetch_out_of_scope)
  from p1 p2 p3 p4 p5 show ?thesis
    by blast
qed

text \<open>
  C1. What the page's caller gets from the wrapper is what the original fetch gives. A
  call out of scope returns the original's own result. In every case a rejection of the
  original is the wrapper's rejection, and a response of the original comes back with the
  same status, status text and headers and with a body that delivers the same chunks and
  ends the same way, whether the wrapper hands the response through or builds a new one
  around one branch of the teed body. The responses are those a fetch resolves with
  (\<open>fetchedResponse\<close>).
\<close>

theorem fetch_transparent:
  assumes "\<forall>resp. originalFetch input init = Inr resp \<longrightarrow> fetchedResponse resp"
  shows "(\<not> isConversation (getRequestUrl input init) (getRequestMethod pf input init) \<longrightarrow>
            returned (fetch pf originalFetch input init) = originalFetch input init)
     \<and> (\<forall>err. originalFetch input init = Inl err \<longrightarrow>
            returned (fetch pf originalFetch input init) = Inl err)
     \<and> (\<forall>resp. originalFetch input init = Inr resp \<longrightarrow>
            (\<exists>resp'. returned (fetch pf originalFetch input init) = Inr resp'
               \<and> status resp' = status resp
               \<and> statusText resp' = statusText resp
               \<and> headers resp' = headers resp
               \<and> body resp' = body resp))"
proof -
  have same: "returned (fetch pf originalFetch input init) = originalFetch input init"
  proof (cases "isConversation (getRequestUrl input init) (getRequestMethod pf input init)")
    case False
    then show ?thesis by (simp add: fetch_out_of_scope)
  next
    case True
    show ?thesis
    proof (cases "originalFetch input init")
      case (Inl err)
      with True show ?thesis by (simp add: fetch_def Let_def)
    next
      case (Inr resp)
      with assms have "fetchedResponse resp" by simp
      with True Inr show ?thesis by (simp add: fetch_def Let_def onResponse_returned)
    qed
  qed
  then show ?thesis by simp
qed

theorem fetch_transparent_witness:
  "fetchedResponse exampleResponse
   \<and> shadowed (fetch examplePlatform (\<lambda>i opts. Inr exampleResponse)
        (InString (js ''https://chatgpt.com/backend-api/f/conversation''))
        (Some \<lparr>init_method = Some (js ''POST'')\<rparr>)) \<noteq> NotTeed
   \<and> returned (fetch examplePlatform (\<lambda>i opts. Inr exampleResponse)
        (InString (js ''https://chatgpt.com/backend-api/f/conversation''))
        (Some \<lparr>init_method = Some (js ''POST'')\<rparr>)) = Inr exampleResponse"
proof -
  let ?input = "InString (js ''https://chatgpt.com/backend-api/f/conversation'')"
  let ?init = "Some \<lparr>init_method = Some (js ''POST'')\<rparr>"
  let ?orig = "\<lambda>(i :: fetch_input) (opts :: fetch_init option). (Inr exampleResponse :: js_error + response)"
  have wf: "fetchedResponse exampleResponse"
    by (simp add: fetchedResponse_def exampleResponse_def isReasonPhrase_def
        isNullBodyStatus_def js_def)
  then have hyp: "\<forall>resp. ?orig ?input ?init = Inr resp \<longrightarrow> fetchedResponse resp"
    by simp
  have m: "getRequestMethod examplePlatform ?input ?init = js ''POST''"
    by (simp add: examplePlatform_def asciiUpper_def js_def)
  have scope: "isConversation (getRequestUrl ?input ?init) (getRequestMethod examplePlatform ?input ?init)"
    unfolding m
    by (simp add: isConversation_def CONVERSATION_PATH_def CONVERSATION_SUBPATH_def js_def)
  have ct: "headers_get (headers exampleResponse) (js ''content-type'')
      = Some (js ''text/event-stream; charset=utf-8'')"
    by (simp add: headers_get_def exampleResponse_def js_def)
  have inc: "includes_str (js ''text/event-stream; charset=utf-8'') (js ''text/event-stream'')"
    by (simp add: js_def)
  have "ok exampleResponse \<and> body exampleResponse \<noteq> None"
    by (simp add: ok_def exampleResponse_def)
  then have teed: "shadowed (onResponse examplePlatform exampleResponse) \<noteq> NotTeed"
    using ct inc by (simp add: onResponse_def Let_def tee_def)
  have "shadowed (fetch examplePlatform ?orig ?input ?init) \<noteq> NotTeed"
    using scope teed by (simp add: fetch_def Let_def)
  moreover have "returned (fetch examplePlatform ?orig ?input ?init) = Inr exampleResponse"
    using fetch_transparent [of ?orig ?input ?init examplePlatform] hyp
    by auto
  ultimately show ?thesis
    using wf by blast
qed

subsection \<open>Payload lines\<close>

lemma processDataLine_extends: "\<exists>more. processDataLine pf line found = found @ more"
proof (cases "JSON_parse pf (trim line)")
  case None
  then show ?thesis by (simp add: processDataLine_def Let_def)
next
  case (Some payload)
  then show ?thesis
    using extract_append [of payload found] by (auto simp: processDataLine_def Let_def)
qed

text \<open>
  C9. \<open>processDataLine\<close> returns the citations it was given, unchanged, for a line whose
  trimmed text is \<open>[DONE]\<close>, for a line whose trimmed text is empty, and for a line
  that \<open>JSON.parse\<close> rejects. It has a result on every line and never loses a citation
  already collected. The stream goes on after such a line: once \<open>processBuffer\<close> has cut
  the line off, it carries on with the rest of the buffer and the same citations.
\<close>

theorem processDataLine_tolerant:
  "(trim line = js ''[DONE]'' \<longrightarrow> processDataLine pf line found = found)
   \<and> (trim line = [] \<longrightarrow> processDataLine pf line found = found)
   \<and> (JSON_parse pf (trim line) = None \<longrightarrow> processDataLine pf line found = found)
   \<and> (\<exists>more. processDataLine pf line found = found @ more)
   \<and> ((0x0A :: jschar) \<notin> set l
        \<and> processDataLine pf (trim (sliceFrom l 5)) (collected ob) = collected ob \<longrightarrow>
        processBuffer pf (ob\<lparr>buffer := l @ 0x0A # rest\<rparr>)
          = processBuffer pf (ob\<lparr>buffer := rest, emitted := emitted ob @ [l]\<rparr>))"
proof (intro conjI impI)
  show "\<exists>more. processDataLine pf line found = found @ more"
    by (rule processDataLine_extends)
next
  assume "trim line = js ''[DONE]''"
  then show "processDataLine pf line found = found"
    by (simp add: processDataLine_def)
next
  assume "trim line = []"
  then show "processDataLine pf line found = found"
    by (simp add: processDataLine_def)
next
  assume "JSON_parse pf (trim line) = None"
  then show "processDataLine pf line found = found"
    by (simp add: processDataLine_def Let_def)
next
  assume a: "(0x0A :: jschar) \<notin> set l
        \<and> processDataLine pf (trim (sliceFrom l 5)) (collected ob) = collected ob"
  then have "processLine pf l (collected ob) = collected ob"
    by (simp add: processLine_def Let_def)
  moreover have "ob\<lparr>buffer := rest, collected := collected ob, emitted := emitted ob @ [l]\<rparr>
      = ob\<lparr>buffer := rest, emitted := emitted ob @ [l]\<rparr>"
    by simp
  ultimately show "processBuffer pf (ob\<lparr>buffer := l @ 0x0A # rest\<rparr>)
          = processBuffer pf (ob\<lparr>buffer := rest, emitted := emitted ob @ [l]\<rparr>)"
    using a processBuffer_line [where line = l and pf = pf and ob = ob and rest = rest] by simp
qed

theorem processDataLine_tolerant_witness:
  "trim (js '' [DONE] '') = js ''[DONE]''
   \<and> processDataLine examplePlatform (js '' [DONE] '') [citationOf ''a''] = [citationOf ''a'']
   \<and> trim (js ''  '') = []
   \<and> processDataLine examplePlatform (js ''  '') [citationOf ''a''] = [citationOf ''a'']
   \<and> JSON_parse examplePlatform (trim (js ''{nope'')) = None
   \<and> processDataLine examplePlatform (js ''{nope'') [citationOf ''a''] = [citationOf ''a'']
   \<and> (0x0A :: jschar) \<notin> set (js ''data: {nope'')
   \<and> processBuffer examplePlatform
        \<lparr>buffer = js ''data: {nope'' @ 0x0A # js ''data: [DONE]'',
         collected = [citationOf ''a''], emitted = []\<rparr>
       = processBuffer examplePlatform
           \<lparr>buffer = js ''data: [DONE]'', collected = [citationOf ''a''],
            emitted = [js ''data: {nope'']\<rparr>"
proof -
  let ?pf = examplePlatform
  let ?ob = "\<lparr>buffer = [], collected = [citationOf ''a''], emitted = []\<rparr>"
  have h1: "trim (js '' [DONE] '') = js ''[DONE]''"
    by (simp add: trim_def isWhiteSpace_def js_def)
  have h2: "trim (js ''  '') = []"
    by (simp add: trim_def isWhiteSpace_def js_def)
  have t3: "trim (js ''{nope'') = js ''{nope''"
    by (simp add: trim_def isWhiteSpace_def js_def)
  have h3: "JSON_parse ?pf (trim (js ''{nope'')) = None"
    unfolding t3 by (simp add: examplePlatform_def exampleJSON_def js_def)
  have h4: "(0x0A :: jschar) \<notin> set (js ''data: {nope'')"
    by (simp add: js_def)
  have t5: "trim (sliceFrom (js ''data: {nope'') 5) = js ''{nope''"
    by (simp add: trim_def isWhiteSpace_def sliceFrom_def clampIndex_def js_def)
  have c1: "processDataLine ?pf (js '' [DONE] '') [citationOf ''a''] = [citationOf ''a'']"
    using processDataLine_tolerant [of "js '' [DONE] ''" ?pf "[citationOf ''a'']"] h1 by blast
  have c2: "processDataLine ?pf (js ''  '') [citationOf ''a''] = [citationOf ''a'']"
    using processDataLine_tolerant [of "js ''  ''" ?pf "[citationOf ''a'']"] h2 by blast
  have c3: "processDataLine ?pf (js ''{nope'') [citationOf ''a''] = [citationOf ''a'']"
    using processDataLine_tolerant [of "js ''{nope''" ?pf "[citationOf ''a'']"] h3 by blast
  have h5: "processDataLine ?pf (trim (sliceFrom (js ''data: {nope'') 5)) (collected ?ob)
      = collected ?ob"
    unfolding t5 using c3 by simp
  have c4: "processBuffer ?pf (?ob\<lparr>buffer := js ''data: {nope'' @ 0x0A # js ''data: [DONE]''\<rparr>)
       = processBuffer ?pf (?ob\<lparr>buffer := js ''data: [DONE]'',
                                  emitted := emitted ?ob @ [js ''data: {nope'']\<rparr>)"
    using processDataLine_tolerant [where line = "js ''{nope''" and pf = ?pf
        and found = "[citationOf ''a'']" and l = "js ''data: {nope''" and ob = ?ob
        and rest = "js ''data: [DONE]''"] h4 h5
    by blast
  from h1 h2 h3 h4 c1 c2 c3 c4 show ?thesis
    by simp
qed

subsection \<open>Citation sink\<close>

lemma filter_insert_url:
  "filter (\<lambda>y. url y \<notin> insert u seen) xs
     = filter (\<lambda>y. url y \<noteq> u) (filter (\<lambda>y. url y \<notin> seen) xs)"
  by (induction xs) auto

lemma uniqueFilter_firstByUrl:
  "uniqueFilter seen xs = firstByUrl (filter (\<lambda>y. url y \<notin> seen) xs)"
proof (induction xs arbitrary: seen)
  case Nil
  show ?case by simp
next
  case (Cons x xs)
  show ?case
  proof (cases "url x \<in> seen")
    case True
    then show ?thesis by (simp add: Cons)
  next
    case False
    then have "uniqueFilter seen (x # xs) = x # uniqueFilter (insert (url x) seen) xs"
      by simp
    also have "\<dots> = x # firstByUrl (filter (\<lambda>y. url y \<notin> insert (url x) seen) xs)"
      by (simp only: Cons)
    also have "\<dots> = x # firstByUrl (filter (\<lambda>y. url y \<noteq> url x)
                                   (filter (\<lambda>y. url y \<notin> seen) xs))"
      by (simp only: filter_insert_url)
    also have "\<dots> = firstByUrl (x # filter (\<lambda>y. url y \<notin> seen) xs)"
      by (simp only: firstByUrl.simps)
    also have "\<dots> = firstByUrl (filter (\<lambda>y. url y \<notin> seen) (x # xs))"
      using False by simp
    finally show ?thesis .
  qed
qed

lemma set_firstByUrl: "set (firstByUrl xs) \<subseteq> set xs"
  by (induction xs rule: firstByUrl.induct) auto

lemma distinct_firstByUrl: "distinct (map url (firstByUrl xs))"
proof (induction xs rule: firstByUrl.induct)
  case 1
  show ?case by simp
next
  case (2 x xs)
  have "url x \<notin> url ` set (firstByUrl (filter (\<lambda>y. url y \<noteq> url x) xs))"
    using set_firstByUrl [of "filter (\<lambda>y. url y \<noteq> url x) xs"] by auto
  with 2 show ?case by simp
qed

lemma deliver_posted:
  "deliver (Some r) lastCitations =
     (case posted r of None \<Rightarrow> lastCitations
      | Some m \<Rightarrow> if mtype m = js ''AICredibilityCitations'' then sources m else lastCitations)"
  by (simp add: deliver_def onMessage_def postMessage_def split: option.splits)

lemma consumeStream_posted:
  assumes "consumeStream pf stream d = Some r"
  shows "posted r =
     (if uniqueFilter {} (collected (at_end r)) = [] then None
      else Some \<lparr>mtype = CITATIONS_EVENT, sources = uniqueFilter {} (collected (at_end r))\<rparr>)"
proof (cases "ending stream")
  case Errored
  with assms show ?thesis by (simp add: consumeStream_def read_Errored)
next
  case Closed
  from assms consumeStream_Closed [OF Closed, of pf d] show ?thesis by auto
qed

lemma shadowStream_cases:
  "shadowStream pf stream lastCitations =
     (if streamCitations pf stream = [] then lastCitations else streamCitations pf stream)"
proof (cases "consumeStream pf stream newTextDecoder")
  case None
  then show ?thesis by (simp add: shadowStream_def streamCitations_def deliver_def)
next
  case (Some r)
  then show ?thesis
    using consumeStream_posted [OF Some]
    by (simp add: shadowStream_def streamCitations_def deliver_posted CITATIONS_EVENT_def)
qed

text \<open>
  C5 as amended. When a shadow stream completes with at least one citation, the sink
  becomes exactly that stream's citations deduplicated by \<open>url\<close> (first occurrence wins,
  order of encounter kept, no two entries with the same \<open>url\<close>), whatever the sink held
  before; so a later such stream supersedes an earlier one entirely. A stream that
  completes with no citation leaves the sink as it was.
\<close>

theorem sink_replaced:
  "(streamCitations pf stream \<noteq> [] \<longrightarrow>
      getCitations (shadowStream pf stream lastCitations) = streamCitations pf stream
      \<and> (\<exists>r. consumeStream pf stream newTextDecoder = Some r
            \<and> streamCitations pf stream = firstByUrl (collected (at_end r)))
      \<and> distinct (map url (streamCitations pf stream)))
   \<and> (streamCitations pf stream = [] \<longrightarrow>
      getCitations (shadowStream pf stream lastCitations) = lastCitations)"
proof (intro conjI impI)
  assume "streamCitations pf stream \<noteq> []"
  then show "getCitations (shadowStream pf stream lastCitations) = streamCitations pf stream"
    by (simp add: getCitations_def shadowStream_cases)
next
  assume "streamCitations pf stream \<noteq> []"
  then obtain r where r: "consumeStream pf stream newTextDecoder = Some r"
    by (cases "consumeStream pf stream newTextDecoder") (auto simp: streamCitations_def)
  then have "streamCitations pf stream = firstByUrl (collected (at_end r))"
    by (simp add: streamCitations_def uniqueFilter_firstByUrl)
  with r show "\<exists>r. consumeStream pf stream newTextDecoder = Some r
           \<and> streamCitations pf stream = firstByUrl (collected (at_end r))"
    by blast
next
  show "distinct (map url (streamCitations pf stream))"
    by (cases "consumeStream pf stream newTextDecoder")
       (simp_all add: streamCitations_def uniqueFilter_firstByUrl distinct_firstByUrl)
next
  assume "streamCitations pf stream = []"
  then show "getCitations (shadowStream pf stream lastCitations) = lastCitations"
    by (simp add: getCitations_def shadowStream_cases)
qed

lemma streamCitations_streamABA:
  "streamCitations examplePlatform streamABA = [citationOf ''a'', citationOf ''b'']"
proof -
  have "uniqueFilter {} [citationOf ''a'', citationOf ''b'', citationOf ''a'']
      = [citationOf ''a'', citationOf ''b'']"
    by (simp add: citationOf_def js_def)
  then show ?thesis
    by (simp add: streamCitations_def example_streamABA del: uniqueFilter.simps)
qed

lemma streamCitations_streamC:
  "streamCitations examplePlatform streamC = [citationOf ''c'']"
  by (simp add: streamCitations_def example_streamC)

lemma streamCitations_streamDoneOnly:
  "streamCitations examplePlatform streamDoneOnly = []"
  by (simp add: streamCitations_def example_streamDoneOnly)

theorem sink_replaced_witness:
  "streamCitations examplePlatform streamABA \<noteq> []
   \<and> getCitations (shadowStream examplePlatform streamABA [])
       = [citationOf ''a'', citationOf ''b'']
   \<and> streamCitations examplePlatform streamC \<noteq> []
   \<and> getCitations (shadowStream examplePlatform streamC [citationOf ''a'', citationOf ''b''])
       = [citationOf ''c'']
   \<and> streamCitations examplePlatform streamDoneOnly = []
   \<and> getCitations (shadowStream examplePlatform streamDoneOnly [citationOf ''c''])
       = [citationOf ''c'']"
proof -
  have h1: "streamCitations examplePlatform streamABA \<noteq> []"
    by (simp add: streamCitations_streamABA)
  have h2: "streamCitations examplePlatform streamC \<noteq> []"
    by (simp add: streamCitations_streamC)
  have h3: "streamCitations examplePlatform streamDoneOnly = []"
    by (rule streamCitations_streamDoneOnly)
  have c1: "getCitations (shadowStream examplePlatform streamABA [])
       = [citationOf ''a'', citationOf ''b'']"
    using sink_replaced [of examplePlatform streamABA "[]"] h1
    by (simp add: streamCitations_streamABA)
  have c2: "getCitations (shadowStream examplePlatform streamC [citationOf ''a'', citationOf ''b''])
       = [citationOf ''c'']"
    using sink_replaced [of examplePlatform streamC "[citationOf ''a'', citationOf ''b'']"] h2
    by (simp add: streamCitations_streamC)
  have c3: "getCitations (shadowStream examplePlatform streamDoneOnly [citationOf ''c''])
       = [citationOf ''c'']"
    using sink_replaced [of examplePlatform streamDoneOnly "[citationOf ''c'']"] h3
    by blast
  from h1 h2 h3 c1 c2 c3 show ?thesis
    by blast
qed

text \<open>
  The claim as stated fails for a stream without citations: it completes, its
  deduplicated citations are the empty list, and the sink still holds what it held.
\<close>

theorem sink_not_replaced_counterexample:
  "streamCitations examplePlatform streamDoneOnly = []
   \<and> getCitations (shadowStream examplePlatform streamDoneOnly [citationOf ''a''])
       = [citationOf ''a'']
   \<and> getCitations (shadowStream examplePlatform streamDoneOnly [citationOf ''a''])
       \<noteq> streamCitations examplePlatform streamDoneOnly"
  by (simp add: shadowStream_cases getCitations_def streamCitations_streamDoneOnly)

text \<open>
  C10. When a shadow stream ends with an empty deduplicated citation list, no message is
  posted and the sink keeps the citations of the stream before it.
\<close>

theorem empty_stream_keeps_sink:
  assumes "consumeStream pf stream newTextDecoder = Some r"
    and "uniqueFilter {} (collected (at_end r)) = []"
  shows "posted r = None
     \<and> shadowStream pf stream lastCitations = lastCitations
     \<and> getCitations (shadowStream pf stream lastCitations) = lastCitations"
proof -
  from assms have "posted r = None"
    using consumeStream_posted [OF assms(1)] by simp
  moreover from assms have "streamCitations pf stream = []"
    by (simp add: streamCitations_def)
  ultimately show ?thesis
    by (simp add: shadowStream_cases getCitations_def)
qed

theorem empty_stream_keeps_sink_witness:
  "consumeStream examplePlatform streamMalformed newTextDecoder
     = Some \<lparr>at_end = \<lparr>buffer = [], collected = [], emitted = [js ''data: {nope'']\<rparr>,
             posted = None\<rparr>
   \<and> uniqueFilter {} [] = []
   \<and> shadowStream examplePlatform streamMalformed [citationOf ''a'', citationOf ''b'']
     = [citationOf ''a'', citationOf ''b'']"
  using empty_stream_keeps_sink
    [OF example_streamMalformed, of "[citationOf ''a'', citationOf ''b'']"]
  by (simp add: example_streamMalformed)

subsection \<open>The end of the stream\<close>

text \<open>Text after the last newline stays in the buffer, for every stream and \<open>JSON.parse\<close>.\<close>

lemma residue_not_processed:
  assumes "ending s = Closed" and "(0x0A :: jschar) \<notin> set (fst (decode d (concat (chunks s))))"
  shows "consumeStream pf s d
     = Some \<lparr>at_end = \<lparr>buffer = fst (decode d (concat (chunks s))), collected = [],
                       emitted = []\<rparr>,
             posted = None\<rparr>"
  using assms by (simp add: consumeStream_Closed splitLines_no_newline)

text \<open>
  C2, on the code as it is. A last line without a newline at its end is not handled: when
  the stream closes the line is still in the buffer, it has not been emitted, nothing is
  collected from it and nothing is posted. The same line followed by a newline is emitted
  and gives its citation.
\<close>

theorem trailing_line_not_processed:
  \<open>consumeStream examplePlatform streamUnterminated newTextDecoder
     = Some \<lparr>at_end = \<lparr>buffer = js ''data: {"items":[{"url":"a"}]}'', collected = [],
                       emitted = []\<rparr>,
             posted = None\<rparr>
   \<and> consumeStream examplePlatform streamTerminated newTextDecoder
     = Some \<lparr>at_end = \<lparr>buffer = [], collected = [citationOf ''a''],
                       emitted = [js ''data: {"items":[{"url":"a"}]}'']\<rparr>,
             posted = Some \<lparr>mtype = CITATIONS_EVENT, sources = [citationOf ''a'']\<rparr>\<rparr>\<close>
  by (simp add: example_streamUnterminated example_streamTerminated)

end
